theory Spec2Isabelle
  imports Complex_Main "HOL-Library.Monad_Syntax"
begin

section \<open>Numbers\<close>

text \<open>
  A C++ \<^verbatim>\<open>int\<close> has 32 bits. Its values are carried as integers between \<open>INT_MIN\<close> and
  \<open>INT_MAX\<close>. An addition or multiplication whose mathematical result leaves that range
  is a signed overflow, which has undefined behaviour: the operation has no result
  (\<open>None\<close>), and neither has any computation that performs it. Converting an
  \<^verbatim>\<open>int\<close> to the unsigned 32-bit \<^verbatim>\<open>GLuint\<close>, and a \<^verbatim>\<open>size_t\<close> length to \<^verbatim>\<open>int\<close>,
  is defined: the value is reduced modulo \<open>2^32\<close> into the range of the target type.
  A \<^verbatim>\<open>std::vector\<close> can grow without limit here; running out of memory is not
  represented.
\<close>

abbreviation INT_MAX :: int where "INT_MAX \<equiv> 2147483647"

abbreviation INT_MIN :: int where "INT_MIN \<equiv> - 2147483648"

definition add_int :: "int \<Rightarrow> int \<Rightarrow> int option" where
  "add_int a b = (if INT_MIN \<le> a + b \<and> a + b \<le> INT_MAX then Some (a + b) else None)"

definition mul_int :: "int \<Rightarrow> int \<Rightarrow> int option" where
  "mul_int a b = (if INT_MIN \<le> a * b \<and> a * b \<le> INT_MAX then Some (a * b) else None)"

definition to_GLuint :: "int \<Rightarrow> int" where
  "to_GLuint i = i mod 4294967296"

definition size_to_int :: "nat \<Rightarrow> int" where
  "size_to_int n = (int n + 2147483648) mod 4294967296 - 2147483648"

text \<open>
  A \<^verbatim>\<open>float\<close> is a finite number, an infinity or a NaN. A finite value is carried as
  an exact real: rounding to 24 bits and underflow are not represented. Exponent
  overflow is: a finite result larger in magnitude than \<open>FLT_MAX\<close> becomes the infinity
  of its sign (\<open>to_float\<close>). The operations follow IEEE 754 on infinities and NaNs. Zero
  has no sign here; a zero divisor counts as \<open>+0\<close>, which is what every zero divisor of
  the program is (a converted \<^verbatim>\<open>int\<close> or a vector length). The clock readings and the
  time step are \<^verbatim>\<open>double\<close>s that are always finite; they are reals.
\<close>

abbreviation FLT_MAX :: real where "FLT_MAX \<equiv> 340282346638528859811704183484516925440"

datatype fp = Fin real | PInf | NInf | NaN

definition to_float :: "real \<Rightarrow> fp" where
  "to_float a = (if FLT_MAX < a then PInf else if a < - FLT_MAX then NInf else Fin a)"

fun is_finite :: "fp \<Rightarrow> bool" where
  "is_finite (Fin a) = True"
| "is_finite PInf = False"
| "is_finite NInf = False"
| "is_finite NaN = False"

fun fneg :: "fp \<Rightarrow> fp" where
  "fneg (Fin a) = Fin (- a)"
| "fneg PInf = NInf"
| "fneg NInf = PInf"
| "fneg NaN = NaN"

fun fadd :: "fp \<Rightarrow> fp \<Rightarrow> fp" where
  "fadd (Fin a) (Fin b) = to_float (a + b)"
| "fadd NaN b = NaN"
| "fadd a NaN = NaN"
| "fadd PInf NInf = NaN"
| "fadd NInf PInf = NaN"
| "fadd PInf b = PInf"
| "fadd a PInf = PInf"
| "fadd NInf b = NInf"
| "fadd a NInf = NInf"

definition fsub :: "fp \<Rightarrow> fp \<Rightarrow> fp" where
  "fsub a b = fadd a (fneg b)"

text \<open>A finite factor times an infinity: \<open>0 * \<infinity>\<close> is a NaN.\<close>

definition scale_inf :: "real \<Rightarrow> fp \<Rightarrow> fp" where
  "scale_inf a i = (if a = 0 then NaN else if 0 < a then i else fneg i)"

fun fmul :: "fp \<Rightarrow> fp \<Rightarrow> fp" where
  "fmul (Fin a) (Fin b) = to_float (a * b)"
| "fmul NaN b = NaN"
| "fmul a NaN = NaN"
| "fmul (Fin a) b = scale_inf a b"
| "fmul a (Fin b) = scale_inf b a"
| "fmul PInf b = b"
| "fmul NInf b = fneg b"

fun fdiv :: "fp \<Rightarrow> fp \<Rightarrow> fp" where
  "fdiv (Fin a) (Fin b) =
     (if b = 0 then (if a = 0 then NaN else if 0 < a then PInf else NInf)
      else to_float (a / b))"
| "fdiv NaN b = NaN"
| "fdiv a NaN = NaN"
| "fdiv (Fin a) b = Fin 0"
| "fdiv a (Fin b) = (if 0 \<le> b then a else fneg a)"
| "fdiv a b = NaN"

fun fsqrt :: "fp \<Rightarrow> fp" where
  "fsqrt (Fin a) = (if a < 0 then NaN else Fin (sqrt a))"
| "fsqrt PInf = PInf"
| "fsqrt NInf = NaN"
| "fsqrt NaN = NaN"

fun fsin :: "fp \<Rightarrow> fp" where
  "fsin (Fin a) = Fin (sin a)"
| "fsin a = NaN"

fun fexp :: "fp \<Rightarrow> fp" where
  "fexp (Fin a) = to_float (exp a)"
| "fexp PInf = PInf"
| "fexp NInf = Fin 0"
| "fexp NaN = NaN"

section \<open>Data\<close>

text \<open>\<^verbatim>\<open>struct JellyVertex { float x, y; float u, v; };\<close>\<close>

record JellyVertex =
  x :: fp
  y :: fp
  u :: fp
  v :: fp

section \<open>The grid generator: the two loop nests of \<^verbatim>\<open>generateGrid\<close>\<close>

text \<open>
  Lines 137 to 150: the body of the inner loop builds one vertex and appends it
  (\<^verbatim>\<open>verts.push_back(v)\<close>); \<^verbatim>\<open>++c\<close> and \<^verbatim>\<open>++r\<close> are \<^verbatim>\<open>int\<close> additions.
\<close>

definition gridVertex :: "int \<Rightarrow> int \<Rightarrow> fp \<Rightarrow> fp \<Rightarrow> int \<Rightarrow> int \<Rightarrow> JellyVertex" where
  "gridVertex cols rows winW winH r c =
     (let tx = fdiv (Fin (of_int c)) (Fin (of_int cols));
          ty = fdiv (Fin (of_int r)) (Fin (of_int rows));
          px = fmul (fsub tx (Fin 0.5)) winW;
          py = fmul (fsub ty (Fin 0.5)) winH
      in \<lparr> x = px, y = py, u = tx, v = fsub (Fin 1) ty \<rparr>)"

function vertsCols ::
  "int \<Rightarrow> int \<Rightarrow> fp \<Rightarrow> fp \<Rightarrow> int \<Rightarrow> int \<Rightarrow> JellyVertex list \<Rightarrow> JellyVertex list option" where
  "vertsCols cols rows winW winH r c verts =
     (if c \<le> cols
      then (case add_int c 1 of
              None \<Rightarrow> None
            | Some c' \<Rightarrow> vertsCols cols rows winW winH r c'
                          (verts @ [gridVertex cols rows winW winH r c]))
      else Some verts)"
  by pat_completeness auto
termination
  by (relation "measure (\<lambda>(cols, rows, winW, winH, r, c, verts). nat (cols + 1 - c))")
     (auto simp: add_int_def split: if_splits)

declare vertsCols.simps [simp del]

function vertsRows ::
  "int \<Rightarrow> int \<Rightarrow> fp \<Rightarrow> fp \<Rightarrow> int \<Rightarrow> JellyVertex list \<Rightarrow> JellyVertex list option" where
  "vertsRows cols rows winW winH r verts =
     (if r \<le> rows
      then (case vertsCols cols rows winW winH r 0 verts of
              None \<Rightarrow> None
            | Some verts' \<Rightarrow>
                (case add_int r 1 of
                   None \<Rightarrow> None
                 | Some r' \<Rightarrow> vertsRows cols rows winW winH r' verts'))
      else Some verts)"
  by pat_completeness auto
termination
  by (relation "measure (\<lambda>(cols, rows, winW, winH, r, verts). nat (rows + 1 - r))")
     (auto simp: add_int_def split: if_splits)

declare vertsRows.simps [simp del]

definition gridVerts :: "int \<Rightarrow> int \<Rightarrow> fp \<Rightarrow> fp \<Rightarrow> JellyVertex list option" where
  "gridVerts cols rows winW winH = vertsRows cols rows winW winH 0 []"

text \<open>
  Lines 152 to 167: the body of the inner loop computes \<open>i0\<close> to \<open>i3\<close> in \<^verbatim>\<open>int\<close> and
  appends the six indices of one cell, each converted to \<^verbatim>\<open>GLuint\<close>.
\<close>

definition cellIdx :: "int \<Rightarrow> int \<Rightarrow> int \<Rightarrow> int list option" where
  "cellIdx cols r c =
     do {
       n \<leftarrow> add_int cols 1;
       m \<leftarrow> mul_int r n;
       i0 \<leftarrow> add_int m c;
       i1 \<leftarrow> add_int i0 1;
       n' \<leftarrow> add_int cols 1;
       i2 \<leftarrow> add_int i0 n';
       i3 \<leftarrow> add_int i2 1;
       Some (map to_GLuint [i0, i2, i1, i1, i2, i3])
     }"

function idxCols :: "int \<Rightarrow> int \<Rightarrow> int \<Rightarrow> int list \<Rightarrow> int list option" where
  "idxCols cols r c idx =
     (if c < cols
      then (case cellIdx cols r c of
              None \<Rightarrow> None
            | Some cell \<Rightarrow>
                (case add_int c 1 of
                   None \<Rightarrow> None
                 | Some c' \<Rightarrow> idxCols cols r c' (idx @ cell)))
      else Some idx)"
  by pat_completeness auto
termination
  by (relation "measure (\<lambda>(cols, r, c, idx). nat (cols - c))")
     (auto simp: add_int_def split: if_splits)

declare idxCols.simps [simp del]

function idxRows :: "int \<Rightarrow> int \<Rightarrow> int \<Rightarrow> int list \<Rightarrow> int list option" where
  "idxRows cols rows r idx =
     (if r < rows
      then (case idxCols cols r 0 idx of
              None \<Rightarrow> None
            | Some idx' \<Rightarrow>
                (case add_int r 1 of
                   None \<Rightarrow> None
                 | Some r' \<Rightarrow> idxRows cols rows r' idx'))
      else Some idx)"
  by pat_completeness auto
termination
  by (relation "measure (\<lambda>(cols, rows, r, idx). nat (rows - r))")
     (auto simp: add_int_def split: if_splits)

declare idxRows.simps [simp del]

definition gridIdx :: "int \<Rightarrow> int \<Rightarrow> int list option" where
  "gridIdx cols rows = idxRows cols rows 0 []"

text \<open>
  The six indices of the cell in row \<open>r\<close> and column \<open>c\<close> as plain integers: \<open>i0\<close>,
  \<open>i2\<close>, \<open>i1\<close>, then \<open>i1\<close>, \<open>i2\<close>, \<open>i3\<close>. The lemmas below show when \<open>cellIdx\<close> returns
  them.
\<close>

definition cellTriangles :: "int \<Rightarrow> int \<Rightarrow> int \<Rightarrow> int list" where
  "cellTriangles cols r c =
     [r * (cols + 1) + c,
      r * (cols + 1) + c + (cols + 1),
      r * (cols + 1) + c + 1,
      r * (cols + 1) + c + 1,
      r * (cols + 1) + c + (cols + 1),
      r * (cols + 1) + c + (cols + 1) + 1]"

section \<open>Per-window state and the OpenGL context\<close>

text \<open>
  \<^verbatim>\<open>struct WindowJellyState\<close> with its default member initialisers. GL object names
  (\<^verbatim>\<open>GLuint\<close>) are natural numbers, \<open>0\<close> meaning "no object".
\<close>

record WindowJellyState =
  dragging :: bool
  lastX :: fp
  lastY :: fp
  vx :: fp
  vy :: fp
  lastTime :: real
  vao :: nat
  vbo :: nat
  ebo :: nat
  shader :: nat
  gridCols :: int
  gridRows :: int
  indexCount :: int
  texId :: nat

definition defaultState :: WindowJellyState where
  "defaultState =
     \<lparr> dragging = False, lastX = Fin 0, lastY = Fin 0, vx = Fin 0, vy = Fin 0,
       lastTime = 0, vao = 0, vbo = 0, ebo = 0, shader = 0,
       gridCols = 20, gridRows = 12, indexCount = 0, texId = 0 \<rparr>"

text \<open>
  The OpenGL driver is outside the program. Its context is modelled by the sequence of
  calls the plugin has issued, in order, and by a counter from which the driver hands out
  fresh object names (never \<open>0\<close>). A uniform is identified by the name that the program
  passes to \<^verbatim>\<open>glGetUniformLocation\<close>.
\<close>

datatype gl_buffer_target = GL_ARRAY_BUFFER | GL_ELEMENT_ARRAY_BUFFER

datatype gl_shader_type = GL_VERTEX_SHADER | GL_FRAGMENT_SHADER

datatype gl_call =
    GenVertexArrays nat
  | GenBuffers nat
  | BindVertexArray nat
  | BindBuffer gl_buffer_target nat
  | BufferDataVerts "JellyVertex list"
  | BufferDataIdx "int list"
  | EnableVertexAttribArray nat
  | VertexAttribPointer nat nat string
  | CreateShader gl_shader_type nat
  | ShaderSource nat string
  | CompileShader nat
  | CreateProgram nat
  | AttachShader nat nat
  | LinkProgram nat
  | DeleteShader nat
  | UseProgram nat
  | Uniform2f string fp fp
  | Uniform1f string fp
  | Uniform1i string int
  | ActiveTexture nat
  | BindTexture nat
  | EnableBlend
  | BlendFuncSrcAlphaOneMinusSrcAlpha
  | DrawElementsTriangles int

record gl_ctx =
  next_name :: nat
  calls :: "gl_call list"

definition glGen :: "(nat \<Rightarrow> gl_call) \<Rightarrow> gl_ctx \<Rightarrow> nat \<times> gl_ctx" where
  "glGen mk g =
     (let n = Suc (next_name g) in (n, \<lparr> next_name = n, calls = calls g @ [mk n] \<rparr>))"

definition glCalls :: "gl_call list \<Rightarrow> gl_ctx \<Rightarrow> gl_ctx" where
  "glCalls cs g = g \<lparr> calls := calls g @ cs \<rparr>"

text \<open>
  \<^verbatim>\<open>compileShaderProgram\<close>: the inner lambda \<^verbatim>\<open>compile\<close>, then the program object.
  The compile and link status are read only to print a message; they do not change what
  the function returns, and are left out.
\<close>

definition compile :: "gl_shader_type \<Rightarrow> string \<Rightarrow> gl_ctx \<Rightarrow> nat \<times> gl_ctx" where
  "compile type src g =
     (let (s, g1) = glGen (CreateShader type) g
      in (s, glCalls [ShaderSource s src, CompileShader s] g1))"

definition compileShaderProgram :: "string \<Rightarrow> string \<Rightarrow> gl_ctx \<Rightarrow> nat \<times> gl_ctx" where
  "compileShaderProgram vsSrc fsSrc g =
     (let (vs, g1) = compile GL_VERTEX_SHADER vsSrc g;
          (fs, g2) = compile GL_FRAGMENT_SHADER fsSrc g1;
          (prog, g3) = glGen CreateProgram g2
      in (prog, glCalls [AttachShader prog vs, AttachShader prog fs, LinkProgram prog,
                         DeleteShader vs, DeleteShader fs] g3))"

text \<open>
  \<^verbatim>\<open>generateGrid\<close>, lines 133 to 192. \<open>uploadGrid\<close> is its second half, from line 169
  on: the upload of the two arrays and the three fields written back, the last one
  \<^verbatim>\<open>(int)idx.size()\<close>. \<open>generateGrid\<close> runs the two loop nests first and has no result
  when one of them overflows.
\<close>

definition uploadGrid ::
  "WindowJellyState \<Rightarrow> int \<Rightarrow> int \<Rightarrow> JellyVertex list \<Rightarrow> int list \<Rightarrow> gl_ctx
     \<Rightarrow> WindowJellyState \<times> gl_ctx" where
  "uploadGrid st cols rows verts idx g =
     (let (st1, g1) = (if vao st = 0
                       then (let (n, g') = glGen GenVertexArrays g in (st \<lparr> vao := n \<rparr>, g'))
                       else (st, g));
          (st2, g2) = (if vbo st1 = 0
                       then (let (n, g') = glGen GenBuffers g1 in (st1 \<lparr> vbo := n \<rparr>, g'))
                       else (st1, g1));
          (st3, g3) = (if ebo st2 = 0
                       then (let (n, g') = glGen GenBuffers g2 in (st2 \<lparr> ebo := n \<rparr>, g'))
                       else (st2, g2));
          g4 = glCalls
                 [BindVertexArray (vao st3),
                  BindBuffer GL_ARRAY_BUFFER (vbo st3),
                  BufferDataVerts verts,
                  BindBuffer GL_ELEMENT_ARRAY_BUFFER (ebo st3),
                  BufferDataIdx idx,
                  EnableVertexAttribArray 0,
                  VertexAttribPointer 0 2 ''x'',
                  EnableVertexAttribArray 1,
                  VertexAttribPointer 1 2 ''u'',
                  BindVertexArray 0] g3
      in (st3 \<lparr> gridCols := cols, gridRows := rows, indexCount := size_to_int (length idx) \<rparr>,
          g4))"

definition generateGrid ::
  "WindowJellyState \<Rightarrow> int \<Rightarrow> int \<Rightarrow> fp \<Rightarrow> fp \<Rightarrow> gl_ctx
     \<Rightarrow> (WindowJellyState \<times> gl_ctx) option" where
  "generateGrid st cols rows winW winH g =
     do {
       verts \<leftarrow> gridVerts cols rows winW winH;
       idx \<leftarrow> gridIdx cols rows;
       Some (uploadGrid st cols rows verts idx g)
     }"

section \<open>Event callbacks, on the state of one window\<close>

text \<open>
  Each callback reads the clock itself; the reading is the parameter \<open>now\<close> (seconds, a
  \<^verbatim>\<open>double\<close>). \<^verbatim>\<open>onMove\<close> computes a \<open>dt\<close> that it never uses.
\<close>

definition onMoveBegin_st ::
  "real \<Rightarrow> WindowJellyState \<times> gl_ctx \<Rightarrow> WindowJellyState \<times> gl_ctx" where
  "onMoveBegin_st now = (\<lambda>(st, g).
     (let st1 = st \<lparr> dragging := True \<rparr>;
          st2 = st1 \<lparr> lastTime := now \<rparr>
      in if shader st2 = 0
         then (let (prog, g') = compileShaderProgram ''vertexShaderSrc'' ''fragmentShaderSrc'' g
               in (st2 \<lparr> shader := prog \<rparr>, g'))
         else (st2, g)))"

definition onMove_st ::
  "real \<Rightarrow> WindowJellyState \<times> gl_ctx \<Rightarrow> WindowJellyState \<times> gl_ctx" where
  "onMove_st now = (\<lambda>(st, g).
     (let dt = max 0.000001 (now - lastTime st)
      in (st \<lparr> lastTime := now \<rparr>, g)))"

definition onMoveEnd_st :: "WindowJellyState \<times> gl_ctx \<Rightarrow> WindowJellyState \<times> gl_ctx" where
  "onMoveEnd_st = (\<lambda>(st, g). (st \<lparr> dragging := False \<rparr>, g))"

section \<open>The render hook, on the state of one window\<close>

text \<open>The placeholder \<^verbatim>\<open>struct DummyWindow\<close> that the hook reads through the pointer.\<close>

record DummyWindow =
  w :: fp
  h :: fp
  xpos :: fp
  ypos :: fp
  tex :: nat

text \<open>
  Lines 261 to 272: the velocity from the stored last position. The difference of the
  two \<^verbatim>\<open>float\<close>s is a \<^verbatim>\<open>float\<close>; the quotient by the \<^verbatim>\<open>double\<close> \<open>dt\<close> is converted
  back to \<^verbatim>\<open>float\<close> when it is stored.
\<close>

definition updateVelocity :: "fp \<Rightarrow> fp \<Rightarrow> real \<Rightarrow> WindowJellyState \<Rightarrow> WindowJellyState" where
  "updateVelocity newX newY now st =
     (let dt = max 0.000001 (now - lastTime st);
          st1 = (if lastTime st = 0 then st \<lparr> lastX := newX, lastY := newY \<rparr> else st);
          st2 = st1 \<lparr> vx := fdiv (fsub newX (lastX st1)) (Fin dt) \<rparr>;
          st3 = st2 \<lparr> vy := fdiv (fsub newY (lastY st2)) (Fin dt) \<rparr>;
          st4 = st3 \<lparr> lastX := newX, lastY := newY \<rparr>
      in st4 \<lparr> lastTime := now \<rparr>)"

text \<open>
  Lines 280 to 314: the uniforms, the texture, the blend state and the draw call. The
  time uniform is \<^verbatim>\<open>(float)now\<close>; a clock reading is far below \<open>FLT_MAX\<close>, and its
  rounding is not represented.
\<close>

definition drawCalls :: "DummyWindow \<Rightarrow> real \<Rightarrow> WindowJellyState \<Rightarrow> gl_call list" where
  "drawCalls win now st =
     [UseProgram (shader st),
      Uniform2f ''uWinSize'' (w win) (h win),
      Uniform2f ''uCenter'' (Fin 0) (Fin 0),
      Uniform2f ''uVelocity'' (vx st) (vy st),
      Uniform1f ''uTime'' (Fin now),
      Uniform1f ''uAmplitude'' (Fin 6.0),
      Uniform1f ''uFrequency'' (Fin 0.02),
      Uniform1f ''uDamping'' (Fin 0.02),
      ActiveTexture 0,
      BindTexture (tex win),
      Uniform1i ''uTex'' 0,
      EnableBlend,
      BlendFuncSrcAlphaOneMinusSrcAlpha,
      BindVertexArray (vao st),
      DrawElementsTriangles (indexCount st),
      BindVertexArray 0,
      UseProgram 0]"

text \<open>
  The mesh is built on the first frame, when \<open>vao\<close> is still \<open>0\<close>. The hook has no
  result when \<^verbatim>\<open>generateGrid\<close> has none.
\<close>

definition lazyGrid ::
  "DummyWindow \<Rightarrow> WindowJellyState \<times> gl_ctx \<Rightarrow> (WindowJellyState \<times> gl_ctx) option" where
  "lazyGrid win = (\<lambda>(st, g).
     if vao st = 0
     then generateGrid st (gridCols st) (gridRows st) (w win) (h win) g
     else Some (st, g))"

definition onPreRenderWindow_st ::
  "DummyWindow \<Rightarrow> real \<Rightarrow> WindowJellyState \<times> gl_ctx \<Rightarrow> (WindowJellyState \<times> gl_ctx) option" where
  "onPreRenderWindow_st win now sg =
     do {
       (st1, g1) \<leftarrow> lazyGrid win sg;
       let st2 = updateVelocity (xpos win) (ypos win) now st1;
       Some (st2, glCalls (drawCalls win now st2) g1)
     }"

section \<open>The registry and the host's calls\<close>

text \<open>
  \<^verbatim>\<open>g_states\<close> maps a window pointer to its state; \<^verbatim>\<open>g_states[pWin]\<close> inserts a
  default-initialised state for a pointer it has not seen. A pointer is an address,
  \<open>0\<close> the null pointer.
\<close>

type_synonym ptr = nat

record plugin =
  g_states :: "ptr \<rightharpoonup> WindowJellyState"
  gl :: gl_ctx

definition stateOf :: "plugin \<Rightarrow> ptr \<Rightarrow> WindowJellyState" where
  "stateOf pl pWin = (case g_states pl pWin of None \<Rightarrow> defaultState | Some st \<Rightarrow> st)"

definition withState ::
  "ptr \<Rightarrow> (WindowJellyState \<times> gl_ctx \<Rightarrow> (WindowJellyState \<times> gl_ctx) option)
     \<Rightarrow> plugin \<Rightarrow> plugin option" where
  "withState pWin f pl =
     do {
       (st', g') \<leftarrow> f (stateOf pl pWin, gl pl);
       Some \<lparr> g_states = (g_states pl)(pWin \<mapsto> st'), gl = g' \<rparr>
     }"

definition onMoveBegin :: "ptr \<Rightarrow> real \<Rightarrow> plugin \<Rightarrow> plugin option" where
  "onMoveBegin pWin now = withState pWin (\<lambda>sg. Some (onMoveBegin_st now sg))"

definition onMove :: "ptr \<Rightarrow> real \<Rightarrow> plugin \<Rightarrow> plugin option" where
  "onMove pWin now = withState pWin (\<lambda>sg. Some (onMove_st now sg))"

definition onMoveEnd :: "ptr \<Rightarrow> plugin \<Rightarrow> plugin option" where
  "onMoveEnd pWin = withState pWin (\<lambda>sg. Some (onMoveEnd_st sg))"

definition onPreRenderWindow :: "ptr \<Rightarrow> DummyWindow \<Rightarrow> real \<Rightarrow> plugin \<Rightarrow> plugin option" where
  "onPreRenderWindow pWin win now pl =
     (if pWin = 0 then Some pl else withState pWin (onPreRenderWindow_st win now) pl)"

text \<open>
  What the host can do to the plugin between \<^verbatim>\<open>PLUGIN_INIT\<close> and \<^verbatim>\<open>PLUGIN_EXIT\<close>:
  deliver one of the three events, or run the render hook on a window whose fields have
  the given values at that moment. A run stops without a result at the first call that
  has none.
\<close>

datatype host_call =
    MoveBegin ptr real
  | Move ptr real
  | MoveEnd ptr
  | PreRenderWindow ptr DummyWindow real

fun host_step :: "plugin \<Rightarrow> host_call \<Rightarrow> plugin option" where
  "host_step pl (MoveBegin pWin now) = onMoveBegin pWin now pl"
| "host_step pl (Move pWin now) = onMove pWin now pl"
| "host_step pl (MoveEnd pWin) = onMoveEnd pWin pl"
| "host_step pl (PreRenderWindow pWin win now) = onPreRenderWindow pWin win now pl"

fun host_run :: "host_call list \<Rightarrow> plugin \<Rightarrow> plugin option" where
  "host_run [] pl = Some pl"
| "host_run (c # cs) pl = (case host_step pl c of None \<Rightarrow> None | Some pl' \<Rightarrow> host_run cs pl')"

definition plugin_init :: plugin where
  "plugin_init = \<lparr> g_states = Map.empty, gl = \<lparr> next_name = 0, calls = [] \<rparr> \<rparr>"

section \<open>The vertex shader's displacement\<close>

text \<open>
  Lines 68 to 80 of \<^verbatim>\<open>vertexShaderSrc\<close>, operation by operation in \<^verbatim>\<open>float\<close>, for
  finite attribute and uniform values. GLSL defines \<^verbatim>\<open>length(v)\<close> as the square root
  of the sum of the squares and \<^verbatim>\<open>normalize(v)\<close> as \<open>v\<close> divided by its length; on the
  zero vector that is \<open>0/0\<close> in each component, a NaN.
\<close>

definition vec2_length :: "fp \<times> fp \<Rightarrow> fp" where
  "vec2_length p = fsqrt (fadd (fmul (fst p) (fst p)) (fmul (snd p) (snd p)))"

definition normalize_vec2 :: "fp \<times> fp \<Rightarrow> fp \<times> fp" where
  "normalize_vec2 p = (fdiv (fst p) (vec2_length p), fdiv (snd p) (vec2_length p))"

definition displaced ::
  "real \<times> real \<Rightarrow> real \<times> real \<Rightarrow> real \<times> real \<Rightarrow> real \<Rightarrow> real \<Rightarrow> real \<Rightarrow> real \<Rightarrow> fp \<times> fp" where
  "displaced aPos uCenter uVelocity uTime uAmplitude uFrequency uDamping =
     (let dx = fsub (Fin (fst aPos)) (Fin (fst uCenter));
          dy = fsub (Fin (snd aPos)) (Fin (snd uCenter));
          dist = vec2_length (dx, dy);
          wave = fmul (fmul (fsin (fsub (fmul (Fin uFrequency) dist)
                                        (fmul (Fin uTime) (Fin 6.2831))))
                            (Fin uAmplitude))
                      (fexp (fmul (fneg dist) (Fin uDamping)));
          velMag = vec2_length (Fin (fst uVelocity), Fin (snd uVelocity));
          disp = fmul wave (fadd (Fin 1.0) (fmul velMag (Fin 5.0)));
          n = normalize_vec2 (fadd dx (Fin 0.0001), fadd dy (Fin 0.0001))
      in (fadd (Fin (fst aPos)) (fmul (fst n) disp),
          fadd (Fin (snd aPos)) (fmul (snd n) disp)))"

section \<open>The loops in closed form\<close>

text \<open>
  While no \<^verbatim>\<open>int\<close> leaves its range, each loop nest returns the list that it appends
  element by element; when a counter reaches \<open>INT_MAX\<close> inside the loop, the loop has no
  result.
\<close>

lemma add_int_Some: "INT_MIN \<le> a + b \<Longrightarrow> a + b \<le> INT_MAX \<Longrightarrow> add_int a b = Some (a + b)"
  by (simp add: add_int_def)

lemma mul_int_Some: "INT_MIN \<le> a * b \<Longrightarrow> a * b \<le> INT_MAX \<Longrightarrow> mul_int a b = Some (a * b)"
  by (simp add: mul_int_def)

lemma vertsCols_closed:
  "cols < INT_MAX \<Longrightarrow> 0 \<le> c \<Longrightarrow>
   vertsCols cols rows winW winH r c verts =
     Some (verts @ map (gridVertex cols rows winW winH r) [c..cols])"
proof (induction cols rows winW winH r c verts rule: vertsCols.induct)
  case (1 cols rows winW winH r c verts)
  show ?case
  proof (cases "c \<le> cols")
    case True
    with "1.prems" have step: "add_int c 1 = Some (c + 1)"
      by (intro add_int_Some) auto
    from "1.IH" [OF True step] "1.prems"
    have "vertsCols cols rows winW winH r (c + 1) (verts @ [gridVertex cols rows winW winH r c]) =
            Some ((verts @ [gridVertex cols rows winW winH r c])
                  @ map (gridVertex cols rows winW winH r) [c + 1..cols])"
      by simp
    with True step show ?thesis
      by (subst vertsCols.simps) (simp add: upto_rec1 [of c cols])
  next
    case False
    then show ?thesis
      by (subst vertsCols.simps) simp
  qed
qed

lemma vertsRows_closed:
  "cols < INT_MAX \<Longrightarrow> rows < INT_MAX \<Longrightarrow> 0 \<le> r \<Longrightarrow>
   vertsRows cols rows winW winH r verts =
     Some (verts @ concat (map (\<lambda>r. map (gridVertex cols rows winW winH r) [0..cols]) [r..rows]))"
proof (induction cols rows winW winH r verts rule: vertsRows.induct)
  case (1 cols rows winW winH r verts)
  let ?row = "\<lambda>r. map (gridVertex cols rows winW winH r) [0..cols]"
  show ?case
  proof (cases "r \<le> rows")
    case True
    from "1.prems" have inner: "vertsCols cols rows winW winH r 0 verts = Some (verts @ ?row r)"
      by (simp add: vertsCols_closed)
    from True "1.prems" have step: "add_int r 1 = Some (r + 1)"
      by (intro add_int_Some) auto
    from "1.IH" [OF True inner step] "1.prems"
    have "vertsRows cols rows winW winH (r + 1) (verts @ ?row r) =
            Some ((verts @ ?row r) @ concat (map ?row [r + 1..rows]))"
      by simp
    with True inner step show ?thesis
      by (subst vertsRows.simps) (simp add: upto_rec1 [of r rows])
  next
    case False
    then show ?thesis
      by (subst vertsRows.simps) simp
  qed
qed

lemma gridVerts_closed:
  "cols < INT_MAX \<Longrightarrow> rows < INT_MAX \<Longrightarrow>
   gridVerts cols rows winW winH =
     Some (concat (map (\<lambda>r. map (gridVertex cols rows winW winH r) [0..cols]) [0..rows]))"
  by (simp add: gridVerts_def vertsRows_closed)

lemma vertsCols_overflow:
  "cols = INT_MAX \<Longrightarrow> 0 \<le> c \<Longrightarrow> c \<le> cols \<Longrightarrow>
   vertsCols cols rows winW winH r c verts = None"
proof (induction cols rows winW winH r c verts rule: vertsCols.induct)
  case (1 cols rows winW winH r c verts)
  show ?case
  proof (cases "c = INT_MAX")
    case True
    then have "add_int c 1 = None" by (simp add: add_int_def)
    with "1.prems" show ?thesis
      by (subst vertsCols.simps) simp
  next
    case False
    with "1.prems" have step: "add_int c 1 = Some (c + 1)"
      by (intro add_int_Some) auto
    from "1.prems" have le: "c \<le> cols" by simp
    from "1.IH" [OF le step] "1.prems" False
    have "vertsCols cols rows winW winH r (c + 1) (verts @ [gridVertex cols rows winW winH r c]) = None"
      by simp
    with le step show ?thesis
      by (subst vertsCols.simps) simp
  qed
qed

lemma vertsRows_overflow:
  "rows = INT_MAX \<Longrightarrow> cols < INT_MAX \<Longrightarrow> 0 \<le> r \<Longrightarrow> r \<le> rows \<Longrightarrow>
   vertsRows cols rows winW winH r verts = None"
proof (induction cols rows winW winH r verts rule: vertsRows.induct)
  case (1 cols rows winW winH r verts)
  let ?row = "\<lambda>r. map (gridVertex cols rows winW winH r) [0..cols]"
  from "1.prems" have inner: "vertsCols cols rows winW winH r 0 verts = Some (verts @ ?row r)"
    by (simp add: vertsCols_closed)
  from "1.prems" have le: "r \<le> rows" by simp
  show ?case
  proof (cases "r = INT_MAX")
    case True
    then have "add_int r 1 = None" by (simp add: add_int_def)
    with le inner show ?thesis
      by (subst vertsRows.simps) simp
  next
    case False
    with "1.prems" have step: "add_int r 1 = Some (r + 1)"
      by (intro add_int_Some) auto
    from "1.IH" [OF le inner step] "1.prems" False
    have "vertsRows cols rows winW winH (r + 1) (verts @ ?row r) = None"
      by simp
    with le inner step show ?thesis
      by (subst vertsRows.simps) simp
  qed
qed

lemma grid_bound_cols:
  assumes "0 \<le> (r::int)" "r < rows" "0 \<le> (cols::int)" "(cols + 1) * (rows + 1) \<le> 2147483648"
  shows "cols + 1 \<le> 1073741824"
proof -
  have "(cols + 1) * 2 \<le> (cols + 1) * (rows + 1)"
    using assms by (intro mult_left_mono) auto
  also note assms(4)
  finally show ?thesis by simp
qed

lemma cellIdx_closed:
  assumes "0 \<le> r" "r < rows" "0 \<le> c" "c < cols" "(cols + 1) * (rows + 1) \<le> 2147483648"
  shows "cellIdx cols r c = Some (cellTriangles cols r c)"
proof -
  have "(r + 2) * (cols + 1) \<le> (rows + 1) * (cols + 1)"
    using assms by (intro mult_right_mono) auto
  then have top: "r * (cols + 1) + 2 * cols + 2 \<le> 2147483648"
    using assms(5) by (simp add: algebra_simps)
  have lo: "0 \<le> r * (cols + 1)" using assms by simp
  have cb: "cols + 1 \<le> 1073741824"
    using grid_bound_cols [of r rows cols] assms by simp
  have n: "add_int cols 1 = Some (cols + 1)"
    using cb assms by (intro add_int_Some) auto
  have m: "mul_int r (cols + 1) = Some (r * (cols + 1))"
    using top lo cb assms by (intro mul_int_Some; linarith)
  have i0: "add_int (r * (cols + 1)) c = Some (r * (cols + 1) + c)"
    using top lo cb assms by (intro add_int_Some; linarith)
  have i1: "add_int (r * (cols + 1) + c) 1 = Some (r * (cols + 1) + c + 1)"
    using top lo cb assms by (intro add_int_Some; linarith)
  have i2: "add_int (r * (cols + 1) + c) (cols + 1) = Some (r * (cols + 1) + c + (cols + 1))"
    using top lo cb assms by (intro add_int_Some; linarith)
  have i3: "add_int (r * (cols + 1) + c + (cols + 1)) 1 = Some (r * (cols + 1) + c + (cols + 1) + 1)"
    using top lo cb assms by (intro add_int_Some; linarith)
  have conv: "to_GLuint i = i" if "0 \<le> i" "i \<le> r * (cols + 1) + c + (cols + 1) + 1" for i
    using that top cb assms by (simp add: to_GLuint_def)
  have "map to_GLuint (cellTriangles cols r c) = cellTriangles cols r c"
    unfolding cellTriangles_def using lo assms by (simp add: conv)
  then show ?thesis
    by (simp add: cellIdx_def n m i0 i1 i2 i3 cellTriangles_def)
qed

lemma idxCols_closed:
  "0 \<le> r \<Longrightarrow> r < rows \<Longrightarrow> (cols + 1) * (rows + 1) \<le> 2147483648 \<Longrightarrow> 0 \<le> c \<Longrightarrow>
   idxCols cols r c idx = Some (idx @ concat (map (cellTriangles cols r) [c..cols - 1]))"
proof (induction cols r c idx rule: idxCols.induct)
  case (1 cols r c idx)
  show ?case
  proof (cases "c < cols")
    case True
    with "1.prems" have cell: "cellIdx cols r c = Some (cellTriangles cols r c)"
      by (intro cellIdx_closed [of r rows]) auto
    have "cols + 1 \<le> 1073741824"
      using grid_bound_cols [of r rows cols] True "1.prems" by simp
    with True have step: "add_int c 1 = Some (c + 1)"
      using "1.prems" by (intro add_int_Some) auto
    from "1.IH" [OF True cell step] "1.prems"
    have "idxCols cols r (c + 1) (idx @ cellTriangles cols r c) =
            Some ((idx @ cellTriangles cols r c) @ concat (map (cellTriangles cols r) [c + 1..cols - 1]))"
      by simp
    with True cell step show ?thesis
      by (subst idxCols.simps) (simp add: upto_rec1 [of c "cols - 1"])
  next
    case False
    then show ?thesis
      by (subst idxCols.simps) simp
  qed
qed

lemma idxRows_closed:
  "(cols + 1) * (rows + 1) \<le> 2147483648 \<Longrightarrow> 0 \<le> cols \<Longrightarrow> 0 \<le> r \<Longrightarrow>
   idxRows cols rows r idx =
     Some (idx @ concat (map (\<lambda>r. concat (map (cellTriangles cols r) [0..cols - 1])) [r..rows - 1]))"
proof (induction cols rows r idx rule: idxRows.induct)
  case (1 cols rows r idx)
  let ?row = "\<lambda>r. concat (map (cellTriangles cols r) [0..cols - 1])"
  show ?case
  proof (cases "r < rows")
    case True
    with "1.prems" have inner: "idxCols cols r 0 idx = Some (idx @ ?row r)"
      by (simp add: idxCols_closed [of r rows])
    have "1 * (rows + 1) \<le> (cols + 1) * (rows + 1)"
      using "1.prems" True by (intro mult_right_mono) auto
    with "1.prems" have "rows + 1 \<le> 2147483648" by simp
    with True "1.prems" have step: "add_int r 1 = Some (r + 1)"
      by (intro add_int_Some) auto
    from "1.IH" [OF True inner step] "1.prems"
    have "idxRows cols rows (r + 1) (idx @ ?row r) =
            Some ((idx @ ?row r) @ concat (map ?row [r + 1..rows - 1]))"
      by simp
    with True inner step show ?thesis
      by (subst idxRows.simps) (simp add: upto_rec1 [of r "rows - 1"])
  next
    case False
    then show ?thesis
      by (subst idxRows.simps) simp
  qed
qed

lemma gridIdx_closed:
  "(cols + 1) * (rows + 1) \<le> 2147483648 \<Longrightarrow> 0 \<le> cols \<Longrightarrow>
   gridIdx cols rows =
     Some (concat (map (\<lambda>r. concat (map (cellTriangles cols r) [0..cols - 1])) [0..rows - 1]))"
  by (simp add: gridIdx_def idxRows_closed)

lemma idxRows_no_cols:
  "cols < 1 \<Longrightarrow> rows \<le> INT_MAX \<Longrightarrow> 0 \<le> r \<Longrightarrow> idxRows cols rows r idx = Some idx"
proof (induction cols rows r idx rule: idxRows.induct)
  case (1 cols rows r idx)
  show ?case
  proof (cases "r < rows")
    case True
    from "1.prems" have inner: "idxCols cols r 0 idx = Some idx"
      by (subst idxCols.simps) simp
    from True "1.prems" have step: "add_int r 1 = Some (r + 1)"
      by (intro add_int_Some) auto
    from "1.IH" [OF True inner step] "1.prems"
    have "idxRows cols rows (r + 1) idx = Some idx" by simp
    with True inner step show ?thesis
      by (subst idxRows.simps) simp
  next
    case False
    then show ?thesis
      by (subst idxRows.simps) simp
  qed
qed

lemma gridIdx_empty:
  assumes "cols < 1 \<or> rows < 1" "rows \<le> INT_MAX"
  shows "gridIdx cols rows = Some []"
proof (cases "rows < 1")
  case True
  then show ?thesis
    unfolding gridIdx_def by (subst idxRows.simps) simp
next
  case False
  with assms show ?thesis
    by (simp add: gridIdx_def idxRows_no_cols)
qed

lemma to_float_Fin: "\<bar>a\<bar> \<le> FLT_MAX \<Longrightarrow> to_float a = Fin a"
  unfolding to_float_def by (auto simp: abs_le_iff)

lemma to_float_small: "\<bar>a\<bar> \<le> 1 \<Longrightarrow> to_float a = Fin a"
  by (rule to_float_Fin) simp

lemma gridVertex_finite:
  assumes "1 \<le> cols" "1 \<le> rows" "0 \<le> r" "r \<le> rows" "0 \<le> c" "c \<le> cols"
    and "\<bar>a\<bar> \<le> FLT_MAX" "\<bar>b\<bar> \<le> FLT_MAX"
  shows "gridVertex cols rows (Fin a) (Fin b) r c =
     \<lparr> x = Fin ((of_int c / of_int cols - 0.5) * a),
       y = Fin ((of_int r / of_int rows - 0.5) * b),
       u = Fin (of_int c / of_int cols),
       v = Fin (1 - of_int r / of_int rows) \<rparr>"
proof -
  let ?tx = "real_of_int c / real_of_int cols" and ?ty = "real_of_int r / real_of_int rows"
  have tx: "0 \<le> ?tx" "?tx \<le> 1" using assms by simp_all
  have ty: "0 \<le> ?ty" "?ty \<le> 1" using assms by simp_all
  have "\<bar>?tx\<bar> \<le> 1" "\<bar>?ty\<bar> \<le> 1" "\<bar>?tx - 0.5\<bar> \<le> 1" "\<bar>?ty - 0.5\<bar> \<le> 1" "\<bar>1 - ?ty\<bar> \<le> 1"
    using tx ty by linarith+
  note tf = this [THEN to_float_small]
  have ftx: "fdiv (Fin (of_int c)) (Fin (of_int cols)) = Fin ?tx"
    using assms(1) by (simp add: tf)
  have fty: "fdiv (Fin (of_int r)) (Fin (of_int rows)) = Fin ?ty"
    using assms(2) by (simp add: tf)
  have sx: "fsub (Fin ?tx) (Fin 0.5) = Fin (?tx - 0.5)"
    using tf(3) by (simp add: fsub_def)
  have sy: "fsub (Fin ?ty) (Fin 0.5) = Fin (?ty - 0.5)"
    using tf(4) by (simp add: fsub_def)
  have "\<bar>(?tx - 0.5) * a\<bar> \<le> 1 * \<bar>a\<bar>"
    unfolding abs_mult using tx by (intro mult_right_mono) auto
  with assms(7) have "\<bar>(?tx - 0.5) * a\<bar> \<le> FLT_MAX" by simp
  then have px: "fmul (Fin (?tx - 0.5)) (Fin a) = Fin ((?tx - 0.5) * a)"
    by (simp add: to_float_Fin)
  have "\<bar>(?ty - 0.5) * b\<bar> \<le> 1 * \<bar>b\<bar>"
    unfolding abs_mult using ty by (intro mult_right_mono) auto
  with assms(8) have "\<bar>(?ty - 0.5) * b\<bar> \<le> FLT_MAX" by simp
  then have py: "fmul (Fin (?ty - 0.5)) (Fin b) = Fin ((?ty - 0.5) * b)"
    by (simp add: to_float_Fin)
  have vv: "fsub (Fin 1) (Fin ?ty) = Fin (1 - ?ty)"
    using tf(5) by (simp add: fsub_def)
  show ?thesis
    unfolding gridVertex_def Let_def ftx fty sx sy px py vv ..
qed

lemma gridVertex_uv:
  assumes "1 \<le> cols" "1 \<le> rows" "0 \<le> r" "r \<le> rows" "0 \<le> c" "c \<le> cols"
  shows "\<exists>a b. u (gridVertex cols rows winW winH r c) = Fin a
           \<and> v (gridVertex cols rows winW winH r c) = Fin b
           \<and> 0 \<le> a \<and> a \<le> 1 \<and> 0 \<le> b \<and> b \<le> 1"
proof -
  let ?tx = "real_of_int c / real_of_int cols" and ?ty = "real_of_int r / real_of_int rows"
  have tx: "0 \<le> ?tx" "?tx \<le> 1" using assms by simp_all
  have ty: "0 \<le> ?ty" "?ty \<le> 1" using assms by simp_all
  have "\<bar>?tx\<bar> \<le> 1" "\<bar>?ty\<bar> \<le> 1" "\<bar>?tx - 0.5\<bar> \<le> 1" "\<bar>?ty - 0.5\<bar> \<le> 1" "\<bar>1 - ?ty\<bar> \<le> 1"
    using tx ty by linarith+
  note tf = this [THEN to_float_small]
  have ftx: "fdiv (Fin (of_int c)) (Fin (of_int cols)) = Fin ?tx"
    using assms(1) by (simp add: tf)
  have fty: "fdiv (Fin (of_int r)) (Fin (of_int rows)) = Fin ?ty"
    using assms(2) by (simp add: tf)
  have vv: "fsub (Fin 1) (Fin ?ty) = Fin (1 - ?ty)"
    using tf(5) by (simp add: fsub_def)
  have "u (gridVertex cols rows winW winH r c) = Fin ?tx"
    unfolding gridVertex_def Let_def ftx by simp
  moreover have "v (gridVertex cols rows winW winH r c) = Fin (1 - ?ty)"
    unfolding gridVertex_def Let_def fty vv by simp
  ultimately show ?thesis
    using tx ty by simp
qed

lemma nth_concat_uniform:
  "\<forall>xs\<in>set xss. length xs = n \<Longrightarrow> i < length xss \<Longrightarrow> k < n \<Longrightarrow>
     concat xss ! (i * n + k) = xss ! i ! k"
proof (induction xss arbitrary: i)
  case Nil
  then show ?case by simp
next
  case (Cons xs xss)
  show ?case
  proof (cases i)
    case 0
    with Cons.prems show ?thesis by (simp add: nth_append)
  next
    case (Suc j)
    with Cons.prems have "concat xss ! (j * n + k) = xss ! j ! k"
      by (intro Cons.IH) auto
    with Suc Cons.prems show ?thesis by (simp add: nth_append)
  qed
qed

lemma length_vertex_rows:
  "length (concat (map (\<lambda>r. map (f r) [0..cols]) [0..rows])) = nat (cols + 1) * nat (rows + 1)"
  by (simp add: length_concat comp_def sum_list_triv)

lemma length_triangle_rows:
  "length (concat (map (\<lambda>r. concat (map (cellTriangles cols r) [0..cols - 1])) [0..rows - 1]))
     = 6 * (nat cols * nat rows)"
  by (simp add: length_concat comp_def sum_list_triv cellTriangles_def)

lemma vertex_rows_nth:
  assumes "0 \<le> r" "r \<le> rows" "0 \<le> c" "c \<le> cols"
  shows "concat (map (\<lambda>r. map (f r) [0..cols]) [0..rows]) ! nat (r * (cols + 1) + c) = f r c"
proof -
  let ?xss = "map (\<lambda>r. map (f r) [0..cols]) [0..rows]"
  have idx: "nat (r * (cols + 1) + c) = nat r * nat (cols + 1) + nat c"
    using assms by (simp add: nat_add_distrib nat_mult_distrib)
  have "concat ?xss ! (nat r * nat (cols + 1) + nat c) = ?xss ! nat r ! nat c"
    using assms by (intro nth_concat_uniform) auto
  also have "\<dots> = f r c"
    using assms by simp
  finally show ?thesis
    by (simp add: idx)
qed

lemma triangle_rows_nth:
  assumes "0 \<le> r" "r < rows" "0 \<le> c" "c < cols" "k < 6"
  shows "concat (map (\<lambda>r. concat (map (cellTriangles cols r) [0..cols - 1])) [0..rows - 1])
           ! (6 * nat (r * cols + c) + k) = cellTriangles cols r c ! k"
proof -
  let ?row = "\<lambda>r. concat (map (cellTriangles cols r) [0..cols - 1])"
  let ?xss = "map ?row [0..rows - 1]"
  have len_row: "length (?row r') = 6 * nat cols" for r'
    by (simp add: length_concat comp_def sum_list_triv cellTriangles_def)
  have row_nth: "?row r ! (nat c * 6 + k) = cellTriangles cols r c ! k"
  proof -
    have "?row r ! (nat c * 6 + k) = map (cellTriangles cols r) [0..cols - 1] ! nat c ! k"
      using assms by (intro nth_concat_uniform) (auto simp: cellTriangles_def)
    then show ?thesis using assms by simp
  qed
  have pos: "6 * nat (r * cols + c) + k = nat r * (6 * nat cols) + (nat c * 6 + k)"
    using assms by (simp add: nat_add_distrib nat_mult_distrib)
  have "nat c * 6 + k < 6 * nat cols"
    using assms by linarith
  then have "concat ?xss ! (nat r * (6 * nat cols) + (nat c * 6 + k)) = ?xss ! nat r ! (nat c * 6 + k)"
    using assms len_row by (intro nth_concat_uniform) auto
  also have "\<dots> = ?row r ! (nat c * 6 + k)"
    using assms by simp
  finally show ?thesis
    using row_nth by (simp add: pos)
qed

lemma cellTriangles_bounds:
  assumes "0 \<le> r" "r < rows" "0 \<le> c" "c < cols" "i \<in> set (cellTriangles cols r c)"
  shows "0 \<le> i \<and> i < (cols + 1) * (rows + 1)"
proof -
  have lo: "0 \<le> r * (cols + 1)" using assms by simp
  have "r + 1 \<le> rows" using assms by simp
  then have "(r + 1) * (cols + 1) \<le> rows * (cols + 1)"
    using assms by (intro mult_right_mono) auto
  then have hi: "r * (cols + 1) + cols + 1 \<le> rows * (cols + 1)"
    by (simp add: algebra_simps)
  have "(cols + 1) * (rows + 1) = rows * (cols + 1) + cols + 1"
    by (simp add: algebra_simps)
  with lo hi assms show ?thesis
    by (auto simp: cellTriangles_def)
qed

lemma triangle_rows_bounds:
  assumes "i \<in> set (concat (map (\<lambda>r. concat (map (cellTriangles cols r) [0..cols - 1])) [0..rows - 1]))"
  shows "0 \<le> i \<and> i < (cols + 1) * (rows + 1)"
proof -
  from assms obtain r c where "0 \<le> r" "r \<le> rows - 1" "0 \<le> c" "c \<le> cols - 1"
    "i \<in> set (cellTriangles cols r c)"
    by auto
  then show ?thesis using cellTriangles_bounds [of r rows c cols i] by simp
qed

lemma uploadGrid_fields:
  "lastX (fst (uploadGrid st cols rows verts idx g)) = lastX st"
  "lastY (fst (uploadGrid st cols rows verts idx g)) = lastY st"
  "vx (fst (uploadGrid st cols rows verts idx g)) = vx st"
  "vy (fst (uploadGrid st cols rows verts idx g)) = vy st"
  "lastTime (fst (uploadGrid st cols rows verts idx g)) = lastTime st"
  "dragging (fst (uploadGrid st cols rows verts idx g)) = dragging st"
  "shader (fst (uploadGrid st cols rows verts idx g)) = shader st"
  "indexCount (fst (uploadGrid st cols rows verts idx g)) = size_to_int (length idx)"
  by (simp_all add: uploadGrid_def Let_def split_def)

lemma uploadGrid_calls:
  "BufferDataVerts verts \<in> set (calls (snd (uploadGrid st cols rows verts idx g)))"
  "BufferDataIdx idx \<in> set (calls (snd (uploadGrid st cols rows verts idx g)))"
  by (simp_all add: uploadGrid_def Let_def split_def glCalls_def)

lemma generateGrid_Some:
  "generateGrid st cols rows winW winH g = Some res \<longleftrightarrow>
     (\<exists>verts idx. gridVerts cols rows winW winH = Some verts \<and> gridIdx cols rows = Some idx
        \<and> res = uploadGrid st cols rows verts idx g)"
  by (auto simp: generateGrid_def split: Option.bind_splits)

lemma size_to_int_small: "int n \<le> INT_MAX \<Longrightarrow> size_to_int n = int n"
  by (simp add: size_to_int_def)

lemma grid_bounds:
  assumes "1 \<le> (cols::int)" "1 \<le> (rows::int)" "(cols + 1) * (rows + 1) \<le> 2147483648"
  shows "cols < 1073741824" "rows < 1073741824"
proof -
  show "cols < 1073741824"
    using grid_bound_cols [of 0 rows cols] assms by simp
  have "(rows + 1) * (cols + 1) \<le> 2147483648"
    using assms(3) by (simp add: mult.commute)
  then show "rows < 1073741824"
    using grid_bound_cols [of 0 cols rows] assms by simp
qed

lemma generateGrid_closed:
  assumes "1 \<le> cols" "1 \<le> rows" "(cols + 1) * (rows + 1) \<le> 2147483648"
  shows "generateGrid st cols rows winW winH g =
           Some (uploadGrid st cols rows
                  (concat (map (\<lambda>r. map (gridVertex cols rows winW winH r) [0..cols]) [0..rows]))
                  (concat (map (\<lambda>r. concat (map (cellTriangles cols r) [0..cols - 1])) [0..rows - 1]))
                  g)"
  using assms grid_bounds [OF assms]
  by (simp add: generateGrid_def gridVerts_closed gridIdx_closed)

section \<open>Claims about the grid generator\<close>

text \<open>
  Claim C1 says that the vertices are produced for every \<open>cols \<ge> 1\<close> and \<open>rows \<ge> 1\<close>.
  The column counter \<open>c\<close> is an \<^verbatim>\<open>int\<close> and the loop runs while \<open>c \<le> cols\<close>: with
  \<open>cols = INT_MAX = 2147483647\<close> the increment \<^verbatim>\<open>++c\<close> after the last column overflows,
  which is undefined behaviour. The vertex loop has no result then, and neither has
  \<^verbatim>\<open>generateGrid\<close>.
\<close>

theorem generateGrid_vertices_counterexample:
  "gridVerts 2147483647 1 (Fin 4) (Fin 2) = None
   \<and> generateGrid defaultState 2147483647 1 (Fin 4) (Fin 2) \<lparr> next_name = 0, calls = [] \<rparr> = None"
proof -
  have "vertsCols 2147483647 1 (Fin 4) (Fin 2) 0 0 [] = None"
    by (rule vertsCols_overflow) simp_all
  then have "gridVerts 2147483647 1 (Fin 4) (Fin 2) = None"
    unfolding gridVerts_def by (subst vertsRows.simps) simp
  then show ?thesis
    by (simp add: generateGrid_def)
qed

text \<open>
  Claim C1 as amended. For \<open>cols \<ge> 1\<close> and \<open>rows \<ge> 1\<close> with
  \<open>(cols + 1) * (rows + 1) \<le> 2^31\<close>, so that every \<^verbatim>\<open>int\<close> of the two loop nests stays in
  range, and for a width and a height that are non-negative finite floats (at most
  \<open>FLT_MAX\<close>), the vertex loop of \<^verbatim>\<open>generateGrid\<close> produces, row by row and inside a row
  column by column, for each row \<open>r\<close> in \<open>[0, rows]\<close> and column \<open>c\<close> in \<open>[0, cols]\<close> the
  vertex with position \<open>((c/cols - 0.5) * width, (r/rows - 0.5) * height)\<close> and uv
  \<open>(c/cols, 1 - r/rows)\<close>, all four finite. The vertex of row \<open>r\<close> and column \<open>c\<close> is
  therefore element \<open>r * (cols + 1) + c\<close> of the vertex array. This array is the one
  that \<^verbatim>\<open>generateGrid\<close> uploads. The quotients and products are exact here, not rounded.
\<close>

theorem generateGrid_vertices:
  assumes "1 \<le> cols" "1 \<le> rows" "(cols + 1) * (rows + 1) \<le> 2147483648"
    and "0 \<le> width" "width \<le> FLT_MAX" "0 \<le> height" "height \<le> FLT_MAX"
  shows "gridVerts cols rows (Fin width) (Fin height) =
           Some (concat (map (\<lambda>r. map (\<lambda>c.
             \<lparr> x = Fin ((of_int c / of_int cols - 0.5) * width),
               y = Fin ((of_int r / of_int rows - 0.5) * height),
               u = Fin (of_int c / of_int cols),
               v = Fin (1 - of_int r / of_int rows) \<rparr>) [0..cols]) [0..rows]))
         \<and> (\<forall>verts r c. gridVerts cols rows (Fin width) (Fin height) = Some verts
               \<and> 0 \<le> r \<and> r \<le> rows \<and> 0 \<le> c \<and> c \<le> cols \<longrightarrow>
               verts ! nat (r * (cols + 1) + c) =
                 \<lparr> x = Fin ((of_int c / of_int cols - 0.5) * width),
                   y = Fin ((of_int r / of_int rows - 0.5) * height),
                   u = Fin (of_int c / of_int cols),
                   v = Fin (1 - of_int r / of_int rows) \<rparr>)
         \<and> (\<exists>verts st' g'. gridVerts cols rows (Fin width) (Fin height) = Some verts
               \<and> generateGrid st cols rows (Fin width) (Fin height) g = Some (st', g')
               \<and> BufferDataVerts verts \<in> set (calls g'))"
proof -
  let ?V = "\<lambda>r c. \<lparr> x = Fin ((of_int c / of_int cols - 0.5) * width),
               y = Fin ((of_int r / of_int rows - 0.5) * height),
               u = Fin (of_int c / of_int cols),
               v = Fin (1 - of_int r / of_int rows) \<rparr>"
  have fin: "\<bar>width\<bar> \<le> FLT_MAX" "\<bar>height\<bar> \<le> FLT_MAX"
    using assms by simp_all
  have vert: "gridVertex cols rows (Fin width) (Fin height) r c = ?V r c"
    if "0 \<le> r" "r \<le> rows" "0 \<le> c" "c \<le> cols" for r c
    using gridVertex_finite [OF assms(1,2) that fin] .
  have rows_eq: "map (\<lambda>r. map (gridVertex cols rows (Fin width) (Fin height) r) [0..cols]) [0..rows]
                 = map (\<lambda>r. map (?V r) [0..cols]) [0..rows]"
    by (intro map_cong refl) (simp add: vert)
  have closed: "gridVerts cols rows (Fin width) (Fin height) =
                  Some (concat (map (\<lambda>r. map (?V r) [0..cols]) [0..rows]))"
    using grid_bounds [OF assms(1-3)] by (simp add: gridVerts_closed rows_eq)
  have pos: "verts ! nat (r * (cols + 1) + c) = ?V r c"
    if "gridVerts cols rows (Fin width) (Fin height) = Some verts"
      "0 \<le> r" "r \<le> rows" "0 \<le> c" "c \<le> cols" for verts r c
    using that closed vertex_rows_nth [of r rows c cols ?V] by simp
  have up: "\<exists>verts st' g'. gridVerts cols rows (Fin width) (Fin height) = Some verts
               \<and> generateGrid st cols rows (Fin width) (Fin height) g = Some (st', g')
               \<and> BufferDataVerts verts \<in> set (calls g')"
  proof -
    obtain st' g' where res: "generateGrid st cols rows (Fin width) (Fin height) g = Some (st', g')"
      using generateGrid_closed [OF assms(1-3)] by (metis surj_pair)
    then obtain verts idx where "gridVerts cols rows (Fin width) (Fin height) = Some verts"
      and "(st', g') = uploadGrid st cols rows verts idx g"
      unfolding generateGrid_Some by blast
    with res uploadGrid_calls(1) [of verts st cols rows idx g] show ?thesis
      by (metis snd_conv)
  qed
  from closed pos up show ?thesis by blast
qed

text \<open>
  The instance \<open>cols = 2\<close>, \<open>rows = 1\<close>, \<open>width = 4\<close>, \<open>height = 2\<close> of claim C1: the
  vertex of row 0, column 0 and the vertex of row 1, column 2.
\<close>

theorem generateGrid_vertices_witness:
  "(1::int) \<le> 2 \<and> (1::int) \<le> 1 \<and> ((2::int) + 1) * (1 + 1) \<le> 2147483648
   \<and> (0::real) \<le> 4 \<and> (4::real) \<le> FLT_MAX \<and> (0::real) \<le> 2 \<and> (2::real) \<le> FLT_MAX
   \<and> (\<exists>verts. gridVerts 2 1 (Fin 4) (Fin 2) = Some verts
        \<and> verts ! nat (0 * (2 + 1) + 0) = \<lparr> x = Fin (- 2), y = Fin (- 1), u = Fin 0, v = Fin 1 \<rparr>
        \<and> verts ! nat (1 * (2 + 1) + 2) = \<lparr> x = Fin 2, y = Fin 1, u = Fin 1, v = Fin 0 \<rparr>)"
proof -
  have h: "(1::int) \<le> 2" "(1::int) \<le> 1" "((2::int) + 1) * (1 + 1) \<le> 2147483648"
    "(0::real) \<le> 4" "(4::real) \<le> FLT_MAX" "(0::real) \<le> 2" "(2::real) \<le> FLT_MAX"
    by simp_all
  note g = generateGrid_vertices [OF h, of defaultState "\<lparr> next_name = 0, calls = [] \<rparr>"]
  from g obtain verts where some: "gridVerts 2 1 (Fin 4) (Fin 2) = Some verts"
    by blast
  note p = g [THEN conjunct2, THEN conjunct1, rule_format, of verts]
  have a: "verts ! nat (0 * (2 + 1) + 0) = \<lparr> x = Fin (- 2), y = Fin (- 1), u = Fin 0, v = Fin 1 \<rparr>"
    using p [of 0 0] some by simp
  have b: "verts ! nat (1 * (2 + 1) + 2) = \<lparr> x = Fin 2, y = Fin 1, u = Fin 1, v = Fin 0 \<rparr>"
    using p [of 1 2] some by simp
  from some a b show ?thesis by simp
qed

text \<open>
  Claim C2 says that the indices are emitted for every \<open>cols \<ge> 1\<close> and \<open>rows \<ge> 1\<close>.
  The four corner indices are computed as \<^verbatim>\<open>int\<close>s. With \<open>cols = 2147483646\<close> and
  \<open>rows = 1\<close>, in the first cell \<open>i2 = i0 + (cols + 1) = 2147483647\<close> is still in range and
  \<open>i3 = i2 + 1\<close> overflows, which is undefined behaviour: the index loop has no result.
\<close>

theorem generateGrid_indices_counterexample:
  "gridIdx 2147483646 1 = None"
proof -
  have "cellIdx 2147483646 0 0 = None"
    by (simp add: cellIdx_def add_int_def mul_int_def)
  then have "idxCols 2147483646 0 0 [] = None"
    by (subst idxCols.simps) simp
  then show ?thesis
    unfolding gridIdx_def by (subst idxRows.simps) simp
qed

text \<open>
  Claim C2 as amended. For \<open>cols \<ge> 1\<close> and \<open>rows \<ge> 1\<close> with
  \<open>(cols + 1) * (rows + 1) \<le> 2^31\<close> the index loop of \<^verbatim>\<open>generateGrid\<close> emits the indices
  cell by cell, rows outermost, for \<open>r\<close> in \<open>[0, rows)\<close> and \<open>c\<close> in \<open>[0, cols)\<close>: with
  \<open>i0 = r * (cols + 1) + c\<close>, \<open>i1 = i0 + 1\<close>, \<open>i2 = i0 + (cols + 1)\<close> and \<open>i3 = i2 + 1\<close>
  the six indices of the cell are \<open>i0, i2, i1\<close> followed by \<open>i1, i2, i3\<close>, in this
  order, and they are elements \<open>6 * (r * cols + c)\<close> to \<open>6 * (r * cols + c) + 5\<close> of the
  index array. This array is the one that \<^verbatim>\<open>generateGrid\<close> uploads. Under the bound
  every index is below \<open>2^31\<close>, so that its conversion to \<^verbatim>\<open>GLuint\<close> leaves it as it is.
\<close>

theorem generateGrid_indices:
  assumes "1 \<le> cols" "1 \<le> rows" "(cols + 1) * (rows + 1) \<le> 2147483648"
  shows "gridIdx cols rows =
     Some (concat (map (\<lambda>r. concat (map (\<lambda>c.
       [r * (cols + 1) + c,
        r * (cols + 1) + c + (cols + 1),
        r * (cols + 1) + c + 1,
        r * (cols + 1) + c + 1,
        r * (cols + 1) + c + (cols + 1),
        r * (cols + 1) + c + (cols + 1) + 1]) [0..cols - 1])) [0..rows - 1]))
   \<and> (\<forall>idx r c k. gridIdx cols rows = Some idx
         \<and> 0 \<le> r \<and> r < rows \<and> 0 \<le> c \<and> c < cols \<and> k < 6 \<longrightarrow>
         idx ! (6 * nat (r * cols + c) + k) =
           [r * (cols + 1) + c,
            r * (cols + 1) + c + (cols + 1),
            r * (cols + 1) + c + 1,
            r * (cols + 1) + c + 1,
            r * (cols + 1) + c + (cols + 1),
            r * (cols + 1) + c + (cols + 1) + 1] ! k)
   \<and> (\<exists>idx st' g'. gridIdx cols rows = Some idx
         \<and> generateGrid st cols rows winW winH g = Some (st', g')
         \<and> BufferDataIdx idx \<in> set (calls g'))"
proof -
  have cell: "cellTriangles cols =
       (\<lambda>r c. [r * (cols + 1) + c,
        r * (cols + 1) + c + (cols + 1),
        r * (cols + 1) + c + 1,
        r * (cols + 1) + c + 1,
        r * (cols + 1) + c + (cols + 1),
        r * (cols + 1) + c + (cols + 1) + 1])"
    by (intro ext) (simp add: cellTriangles_def)
  have closed: "gridIdx cols rows =
     Some (concat (map (\<lambda>r. concat (map (cellTriangles cols r) [0..cols - 1])) [0..rows - 1]))"
    using assms by (simp add: gridIdx_closed)
  have pos: "idx ! (6 * nat (r * cols + c) + k) = cellTriangles cols r c ! k"
    if "gridIdx cols rows = Some idx" "0 \<le> r" "r < rows" "0 \<le> c" "c < cols" "k < 6"
    for idx r c k
    using that closed triangle_rows_nth [of r rows c cols k] by simp
  have up: "\<exists>idx st' g'. gridIdx cols rows = Some idx
         \<and> generateGrid st cols rows winW winH g = Some (st', g')
         \<and> BufferDataIdx idx \<in> set (calls g')"
  proof -
    obtain st' g' where res: "generateGrid st cols rows winW winH g = Some (st', g')"
      using generateGrid_closed [OF assms] by (metis surj_pair)
    then obtain verts idx where "gridIdx cols rows = Some idx"
      and "(st', g') = uploadGrid st cols rows verts idx g"
      unfolding generateGrid_Some by blast
    with res uploadGrid_calls(2) [of idx st cols rows verts g] show ?thesis
      by (metis snd_conv)
  qed
  from closed pos up show ?thesis
    unfolding cell by blast
qed

text \<open>
  The index array of the grid with two columns and one row, and the fourth index of its
  second cell.
\<close>

theorem generateGrid_indices_witness:
  "(1::int) \<le> 2 \<and> (1::int) \<le> 1 \<and> ((2::int) + 1) * (1 + 1) \<le> 2147483648
   \<and> gridIdx 2 1 = Some [0, 3, 1, 1, 3, 4, 1, 4, 2, 2, 4, 5]
   \<and> (0::int) \<le> 0 \<and> (0::int) < 1 \<and> (0::int) \<le> 1 \<and> (1::int) < 2 \<and> (3::nat) < 6
   \<and> [0, 3, 1, 1, 3, 4, 1, 4, 2, 2, 4, 5] ! (6 * nat (0 * 2 + 1) + 3) = (2::int)"
proof -
  have h: "(1::int) \<le> 2" "(1::int) \<le> 1" "((2::int) + 1) * (1 + 1) \<le> 2147483648"
    by simp_all
  note g = generateGrid_indices [OF h, of defaultState NaN NaN "\<lparr> next_name = 0, calls = [] \<rparr>"]
  have a: "gridIdx 2 1 = Some [0, 3, 1, 1, 3, 4, 1, 4, 2, 2, 4, 5]"
    using g [THEN conjunct1] by (simp add: upto_rec1)
  have b: "[0, 3, 1, 1, 3, 4, 1, 4, 2, 2, 4, 5] ! (6 * nat (0 * 2 + 1) + 3) = (2::int)"
    using g [THEN conjunct2, THEN conjunct1, rule_format, of "[0, 3, 1, 1, 3, 4, 1, 4, 2, 2, 4, 5]" 0 1 3] a
    by simp
  from a b show ?thesis by simp
qed

text \<open>
  Claim C3 says that the mesh has the stated counts for all \<open>cols, rows \<ge> 1\<close>. With
  \<open>rows = INT_MAX\<close> the row counter of the vertex loop overflows after the last row:
  \<^verbatim>\<open>generateGrid\<close> has no result, hence no mesh with these counts.
\<close>

theorem generateGrid_counts_counterexample:
  "generateGrid defaultState 1 2147483647 (Fin 4) (Fin 2) \<lparr> next_name = 0, calls = [] \<rparr> = None"
proof -
  have "vertsRows 1 2147483647 (Fin 4) (Fin 2) 0 [] = None"
    by (rule vertsRows_overflow) simp_all
  then show ?thesis
    by (simp add: generateGrid_def gridVerts_def)
qed

text \<open>The lengths of the two arrays, and what \<^verbatim>\<open>generateGrid\<close> does with them.\<close>

lemma grid_lengths:
  assumes "1 \<le> cols" "1 \<le> rows" "(cols + 1) * (rows + 1) \<le> 2147483648"
  shows "\<exists>verts idx. gridVerts cols rows winW winH = Some verts
       \<and> gridIdx cols rows = Some idx
       \<and> int (length verts) = (cols + 1) * (rows + 1)
       \<and> int (length idx) = cols * rows * 6"
  using assms grid_bounds [OF assms]
  by (simp add: gridVerts_closed gridIdx_closed length_vertex_rows length_triangle_rows
        nat_mult_distrib [symmetric])

lemma generateGrid_upload:
  assumes "gridVerts cols rows winW winH = Some verts" "gridIdx cols rows = Some idx"
  shows "\<exists>st' g'. generateGrid st cols rows winW winH g = Some (st', g')
       \<and> BufferDataVerts verts \<in> set (calls g')
       \<and> BufferDataIdx idx \<in> set (calls g')
       \<and> indexCount st' = size_to_int (length idx)"
proof -
  obtain st' g' where up: "uploadGrid st cols rows verts idx g = (st', g')"
    by (metis surj_pair)
  then have res: "generateGrid st cols rows winW winH g = Some (st', g')"
    by (simp add: generateGrid_def assms)
  have "BufferDataVerts verts \<in> set (calls g')" "BufferDataIdx idx \<in> set (calls g')"
    "indexCount st' = size_to_int (length idx)"
    using uploadGrid_calls(1) [of verts st cols rows idx g]
      uploadGrid_calls(2) [of idx st cols rows verts g]
      uploadGrid_fields(8) [of st cols rows verts idx g] up
    by simp_all
  with res show ?thesis by blast
qed

text \<open>
  Claim C3 as amended. For \<open>cols, rows \<ge> 1\<close> with \<open>(cols + 1) * (rows + 1) \<le> 2^31\<close> and
  every width and height, \<^verbatim>\<open>generateGrid\<close> uploads a mesh with exactly
  \<open>(cols + 1) * (rows + 1)\<close> vertices and \<open>cols * rows * 6\<close> indices, every index is a
  valid position in the vertex array, and both uv components of every vertex are finite
  and lie in \<open>[0, 1]\<close>. Neither the counts nor the uv values depend on the width and
  height, so these are arbitrary here, not only non-negative. The index count that
  \<^verbatim>\<open>generateGrid\<close> stores for the draw call is the length of the index array converted to
  \<^verbatim>\<open>int\<close>: it is \<open>cols * rows * 6\<close> when that is at most \<open>INT_MAX\<close>.
\<close>

theorem generateGrid_counts_and_ranges:
  assumes "1 \<le> cols" "1 \<le> rows" "(cols + 1) * (rows + 1) \<le> 2147483648"
  shows "\<exists>verts idx st' g'. gridVerts cols rows winW winH = Some verts
       \<and> gridIdx cols rows = Some idx
       \<and> generateGrid st cols rows winW winH g = Some (st', g')
       \<and> BufferDataVerts verts \<in> set (calls g')
       \<and> BufferDataIdx idx \<in> set (calls g')
       \<and> int (length verts) = (cols + 1) * (rows + 1)
       \<and> int (length idx) = cols * rows * 6
       \<and> (\<forall>i \<in> set idx. 0 \<le> i \<and> i < int (length verts))
       \<and> (\<forall>vert \<in> set verts.
             \<exists>a b. u vert = Fin a \<and> v vert = Fin b \<and> 0 \<le> a \<and> a \<le> 1 \<and> 0 \<le> b \<and> b \<le> 1)
       \<and> indexCount st' = size_to_int (length idx)
       \<and> (cols * rows * 6 \<le> INT_MAX \<longrightarrow> indexCount st' = cols * rows * 6)"
proof -
  let ?verts = "concat (map (\<lambda>r. map (gridVertex cols rows winW winH r) [0..cols]) [0..rows])"
  let ?idx = "concat (map (\<lambda>r. concat (map (cellTriangles cols r) [0..cols - 1])) [0..rows - 1])"
  have v: "gridVerts cols rows winW winH = Some ?verts"
    using grid_bounds [OF assms] by (simp add: gridVerts_closed)
  have i: "gridIdx cols rows = Some ?idx"
    using assms by (simp add: gridIdx_closed)
  have nv: "int (length ?verts) = (cols + 1) * (rows + 1)"
    using assms by (simp add: length_vertex_rows nat_mult_distrib [symmetric])
  have ni: "int (length ?idx) = cols * rows * 6"
    using assms by (simp add: length_triangle_rows)
  have bound: "0 \<le> i \<and> i < int (length ?verts)" if "i \<in> set ?idx" for i
    using triangle_rows_bounds [OF that] nv by simp
  have uv: "\<exists>a b. u vert = Fin a \<and> v vert = Fin b \<and> 0 \<le> a \<and> a \<le> 1 \<and> 0 \<le> b \<and> b \<le> 1"
    if "vert \<in> set ?verts" for vert
  proof -
    from that obtain r c where "0 \<le> r" "r \<le> rows" "0 \<le> c" "c \<le> cols"
      and vert: "vert = gridVertex cols rows winW winH r c"
      by auto
    then show ?thesis
      using gridVertex_uv [OF assms(1,2), of r c winW winH] by simp
  qed
  obtain st' g' where res: "generateGrid st cols rows winW winH g = Some (st', g')"
    and c: "BufferDataVerts ?verts \<in> set (calls g')" "BufferDataIdx ?idx \<in> set (calls g')"
    and ic: "indexCount st' = size_to_int (length ?idx)"
    using generateGrid_upload [OF v i, of st g] by blast
  have small: "indexCount st' = cols * rows * 6" if "cols * rows * 6 \<le> INT_MAX"
    using that ic ni size_to_int_small [of "length ?idx"] by simp
  from v i res c nv ni bound uv ic small show ?thesis by blast
qed

text \<open>
  The grid with two columns and one row: its counts, the stored index count, the index 5
  and the vertex of row 1, column 1.
\<close>

theorem generateGrid_counts_and_ranges_witness:
  "(1::int) \<le> 2 \<and> (1::int) \<le> 1 \<and> ((2::int) + 1) * (1 + 1) \<le> 2147483648
   \<and> (2::int) * 1 * 6 \<le> INT_MAX
   \<and> (\<exists>verts idx st' g'. gridVerts 2 1 (Fin 4) (Fin 2) = Some verts \<and> gridIdx 2 1 = Some idx
        \<and> generateGrid defaultState 2 1 (Fin 4) (Fin 2) \<lparr> next_name = 0, calls = [] \<rparr> = Some (st', g')
        \<and> length verts = 6 \<and> length idx = 12 \<and> indexCount st' = 12
        \<and> (5::int) \<in> set idx \<and> (5::int) < int (length verts)
        \<and> \<lparr> x = Fin 0, y = Fin 1, u = Fin 0.5, v = Fin 0 \<rparr> \<in> set verts)"
proof -
  have h: "(1::int) \<le> 2" "(1::int) \<le> 1" "((2::int) + 1) * (1 + 1) \<le> 2147483648"
    by simp_all
  from generateGrid_counts_and_ranges [OF h, of "Fin 4" "Fin 2" defaultState "\<lparr> next_name = 0, calls = [] \<rparr>"]
  obtain verts idx st' g' where v: "gridVerts 2 1 (Fin 4) (Fin 2) = Some verts"
    and i: "gridIdx 2 1 = Some idx"
    and res: "generateGrid defaultState 2 1 (Fin 4) (Fin 2) \<lparr> next_name = 0, calls = [] \<rparr> = Some (st', g')"
    and n: "int (length verts) = (2 + 1) * (1 + 1)" "int (length idx) = 2 * 1 * 6"
    and b: "\<forall>i \<in> set idx. 0 \<le> i \<and> i < int (length verts)"
    and ic: "2 * 1 * 6 \<le> INT_MAX \<longrightarrow> indexCount st' = 2 * 1 * 6"
    by blast
  have i5: "(5::int) \<in> set idx"
    using i by (auto simp add: gridIdx_closed cellTriangles_def upto_rec1)
  have eq: "gridVertex 2 1 (Fin 4) (Fin 2) 1 1 = \<lparr> x = Fin 0, y = Fin 1, u = Fin 0.5, v = Fin 0 \<rparr>"
    using gridVertex_finite [of 2 1 1 1 4 2] by simp
  have "gridVertex 2 1 (Fin 4) (Fin 2) 1 1 \<in> set verts"
    using v by (force simp add: gridVerts_closed)
  then have vert: "\<lparr> x = Fin 0, y = Fin 1, u = Fin 0.5, v = Fin 0 \<rparr> \<in> set verts"
    by (simp only: eq)
  from n ic have "length verts = 6" "length idx = 12" "indexCount st' = 12"
    by simp_all
  moreover from b i5 have "(5::int) < int (length verts)"
    by blast
  ultimately show ?thesis
    using v i res i5 vert by auto
qed

lemma gridVerts_defined:
  "cols < INT_MAX \<Longrightarrow> rows < INT_MAX \<Longrightarrow> \<exists>verts. gridVerts cols rows winW winH = Some verts"
  by (simp add: gridVerts_closed)

text \<open>
  Claim C4 says that grid generation with \<open>cols < 1\<close>, \<open>rows < 1\<close> or a negative or
  non-finite size fails with \<open>InvalidDimension\<close> and produces no mesh. The function has
  no check and no way to fail. With the negative width \<open>-4\<close> it uploads a mesh of four
  vertices (mirrored in x) and six indices, and records six indices to draw.
\<close>

theorem generateGrid_invalid_dimension_counterexample:
  "generateGrid defaultState 1 1 (Fin (- 4)) (Fin 2) \<lparr> next_name = 0, calls = [] \<rparr> =
     Some (defaultState \<lparr> vao := 1, vbo := 2, ebo := 3, gridCols := 1, gridRows := 1, indexCount := 6 \<rparr>,
      \<lparr> next_name = 3,
        calls = [GenVertexArrays 1, GenBuffers 2, GenBuffers 3,
                 BindVertexArray 1,
                 BindBuffer GL_ARRAY_BUFFER 2,
                 BufferDataVerts
                   [\<lparr> x = Fin 2, y = Fin (- 1), u = Fin 0, v = Fin 1 \<rparr>,
                    \<lparr> x = Fin (- 2), y = Fin (- 1), u = Fin 1, v = Fin 1 \<rparr>,
                    \<lparr> x = Fin 2, y = Fin 1, u = Fin 0, v = Fin 0 \<rparr>,
                    \<lparr> x = Fin (- 2), y = Fin 1, u = Fin 1, v = Fin 0 \<rparr>],
                 BindBuffer GL_ELEMENT_ARRAY_BUFFER 3,
                 BufferDataIdx [0, 2, 1, 1, 2, 3],
                 EnableVertexAttribArray 0,
                 VertexAttribPointer 0 2 ''x'',
                 EnableVertexAttribArray 1,
                 VertexAttribPointer 1 2 ''u'',
                 BindVertexArray 0] \<rparr>)"
proof -
  have verts: "gridVerts 1 1 (Fin (- 4)) (Fin 2) =
      Some [\<lparr> x = Fin 2, y = Fin (- 1), u = Fin 0, v = Fin 1 \<rparr>,
            \<lparr> x = Fin (- 2), y = Fin (- 1), u = Fin 1, v = Fin 1 \<rparr>,
            \<lparr> x = Fin 2, y = Fin 1, u = Fin 0, v = Fin 0 \<rparr>,
            \<lparr> x = Fin (- 2), y = Fin 1, u = Fin 1, v = Fin 0 \<rparr>]"
    by (simp add: gridVerts_closed gridVertex_def Let_def upto_rec1 fsub_def to_float_def)
  have idx: "gridIdx 1 1 = Some [0, 2, 1, 1, 2, 3]"
    by (simp add: gridIdx_closed cellTriangles_def upto_rec1)
  show ?thesis
    by (simp add: generateGrid_def verts idx uploadGrid_def defaultState_def glGen_def
          glCalls_def Let_def size_to_int_def)
qed

text \<open>
  Claim C4 as amended. \<^verbatim>\<open>generateGrid\<close> validates nothing and has no error result. When
  \<open>cols < 1\<close> or \<open>rows < 1\<close> (both below \<open>INT_MAX\<close>) it uploads the vertex array that its
  loop builds and an empty index array, and stores the index count \<open>0\<close>; when both are at
  least \<open>1\<close> and \<open>(cols + 1) * (rows + 1) \<le> 2^31\<close> it uploads the mesh of
  \<open>(cols + 1) * (rows + 1)\<close> vertices and \<open>cols * rows * 6\<close> indices and stores the length
  of the index array converted to \<^verbatim>\<open>int\<close>, which is \<open>cols * rows * 6\<close> when that is at most
  \<open>INT_MAX\<close>. Both hold whatever the width and height are, finite or not, negative or
  not.
\<close>

theorem generateGrid_no_validation:
  "(cols < INT_MAX \<and> rows < INT_MAX \<and> (cols < 1 \<or> rows < 1) \<longrightarrow>
      (\<exists>verts st' g'. gridVerts cols rows winW winH = Some verts
         \<and> gridIdx cols rows = Some []
         \<and> generateGrid st cols rows winW winH g = Some (st', g')
         \<and> BufferDataVerts verts \<in> set (calls g')
         \<and> BufferDataIdx [] \<in> set (calls g')
         \<and> indexCount st' = 0))
   \<and> (1 \<le> cols \<and> 1 \<le> rows \<and> (cols + 1) * (rows + 1) \<le> 2147483648 \<longrightarrow>
      (\<exists>verts idx st' g'. gridVerts cols rows winW winH = Some verts
         \<and> gridIdx cols rows = Some idx
         \<and> generateGrid st cols rows winW winH g = Some (st', g')
         \<and> BufferDataVerts verts \<in> set (calls g')
         \<and> BufferDataIdx idx \<in> set (calls g')
         \<and> int (length verts) = (cols + 1) * (rows + 1)
         \<and> int (length idx) = cols * rows * 6
         \<and> indexCount st' = size_to_int (length idx)
         \<and> (cols * rows * 6 \<le> INT_MAX \<longrightarrow> indexCount st' = cols * rows * 6)))"
proof -
  have degenerate: "\<exists>verts st' g'. gridVerts cols rows winW winH = Some verts
         \<and> gridIdx cols rows = Some []
         \<and> generateGrid st cols rows winW winH g = Some (st', g')
         \<and> BufferDataVerts verts \<in> set (calls g')
         \<and> BufferDataIdx [] \<in> set (calls g')
         \<and> indexCount st' = 0"
    if "cols < INT_MAX \<and> rows < INT_MAX \<and> (cols < 1 \<or> rows < 1)"
  proof -
    from that obtain verts where v: "gridVerts cols rows winW winH = Some verts"
      using gridVerts_defined by blast
    from that have i: "gridIdx cols rows = Some []"
      by (intro gridIdx_empty) auto
    obtain st' g' where res: "generateGrid st cols rows winW winH g = Some (st', g')"
      and "BufferDataVerts verts \<in> set (calls g')" "BufferDataIdx [] \<in> set (calls g')"
      and "indexCount st' = size_to_int (length ([] :: int list))"
      using generateGrid_upload [OF v i, of st g] by blast
    then have "BufferDataVerts verts \<in> set (calls g')" "BufferDataIdx [] \<in> set (calls g')"
      "indexCount st' = 0"
      by (simp_all add: size_to_int_def)
    with v i res show ?thesis by blast
  qed
  have full: "\<exists>verts idx st' g'. gridVerts cols rows winW winH = Some verts
         \<and> gridIdx cols rows = Some idx
         \<and> generateGrid st cols rows winW winH g = Some (st', g')
         \<and> BufferDataVerts verts \<in> set (calls g')
         \<and> BufferDataIdx idx \<in> set (calls g')
         \<and> int (length verts) = (cols + 1) * (rows + 1)
         \<and> int (length idx) = cols * rows * 6
         \<and> indexCount st' = size_to_int (length idx)
         \<and> (cols * rows * 6 \<le> INT_MAX \<longrightarrow> indexCount st' = cols * rows * 6)"
    if "1 \<le> cols \<and> 1 \<le> rows \<and> (cols + 1) * (rows + 1) \<le> 2147483648"
  proof -
    from that have h: "1 \<le> cols" "1 \<le> rows" "(cols + 1) * (rows + 1) \<le> 2147483648"
      by simp_all
    from grid_lengths [OF h, of winW winH]
    obtain verts idx where v: "gridVerts cols rows winW winH = Some verts"
      and i: "gridIdx cols rows = Some idx"
      and n: "int (length verts) = (cols + 1) * (rows + 1)" "int (length idx) = cols * rows * 6"
      by blast
    obtain st' g' where res: "generateGrid st cols rows winW winH g = Some (st', g')"
      and c: "BufferDataVerts verts \<in> set (calls g')" "BufferDataIdx idx \<in> set (calls g')"
      and ic: "indexCount st' = size_to_int (length idx)"
      using generateGrid_upload [OF v i, of st g] by blast
    have "indexCount st' = cols * rows * 6" if "cols * rows * 6 \<le> INT_MAX"
      using that ic n(2) size_to_int_small [of "length idx"] by simp
    with v i res c n ic show ?thesis by blast
  qed
  from degenerate full show ?thesis by blast
qed

text \<open>
  No columns, a NaN width and a negative height: an empty index array and a draw count of
  zero. One column and one row with the same sizes: the full mesh.
\<close>

theorem generateGrid_no_validation_witness:
  "(0::int) < INT_MAX \<and> (1::int) < INT_MAX \<and> ((0::int) < 1 \<or> (1::int) < 1)
   \<and> gridIdx 0 1 = Some []
   \<and> (\<exists>st' g'. generateGrid defaultState 0 1 NaN (Fin (- 2)) \<lparr> next_name = 0, calls = [] \<rparr> = Some (st', g')
         \<and> indexCount st' = 0)
   \<and> (1::int) \<le> 1 \<and> (1::int) \<le> 1 \<and> ((1::int) + 1) * (1 + 1) \<le> 2147483648
   \<and> (1::int) * 1 * 6 \<le> INT_MAX
   \<and> (\<exists>verts idx st' g'. gridVerts 1 1 NaN (Fin (- 2)) = Some verts \<and> gridIdx 1 1 = Some idx
         \<and> generateGrid defaultState 1 1 NaN (Fin (- 2)) \<lparr> next_name = 0, calls = [] \<rparr> = Some (st', g')
         \<and> length verts = 4 \<and> length idx = 6 \<and> indexCount st' = 6)"
proof -
  have a: "(0::int) < INT_MAX \<and> (1::int) < INT_MAX \<and> ((0::int) < 1 \<or> (1::int) < 1)"
    by simp
  have b: "(1::int) \<le> 1 \<and> (1::int) \<le> 1 \<and> ((1::int) + 1) * (1 + 1) \<le> 2147483648"
    by simp
  note t0 = generateGrid_no_validation [of 0 1 NaN "Fin (- 2)" defaultState "\<lparr> next_name = 0, calls = [] \<rparr>",
      THEN conjunct1, rule_format, OF a]
  note t1 = generateGrid_no_validation [of 1 1 NaN "Fin (- 2)" defaultState "\<lparr> next_name = 0, calls = [] \<rparr>",
      THEN conjunct2, rule_format, OF b]
  from t0 have p0: "gridIdx 0 1 = Some []
      \<and> (\<exists>st' g'. generateGrid defaultState 0 1 NaN (Fin (- 2)) \<lparr> next_name = 0, calls = [] \<rparr> = Some (st', g')
         \<and> indexCount st' = 0)"
    by blast
  from t1 have p1: "\<exists>verts idx st' g'. gridVerts 1 1 NaN (Fin (- 2)) = Some verts \<and> gridIdx 1 1 = Some idx
         \<and> generateGrid defaultState 1 1 NaN (Fin (- 2)) \<lparr> next_name = 0, calls = [] \<rparr> = Some (st', g')
         \<and> length verts = 4 \<and> length idx = 6 \<and> indexCount st' = 6"
  proof (elim exE conjE)
    fix verts idx st' g'
    assume "gridVerts 1 1 NaN (Fin (- 2)) = Some verts" "gridIdx 1 1 = Some idx"
      "generateGrid defaultState 1 1 NaN (Fin (- 2)) \<lparr> next_name = 0, calls = [] \<rparr> = Some (st', g')"
      "int (length verts) = (1 + 1) * (1 + 1)" "int (length idx) = 1 * 1 * 6"
      "1 * 1 * 6 \<le> INT_MAX \<longrightarrow> indexCount st' = 1 * 1 * 6"
    moreover from this have "length verts = 4" "length idx = 6" "indexCount st' = 6"
      by simp_all
    ultimately show ?thesis by blast
  qed
  from a b p0 p1 show ?thesis by simp
qed

text \<open>
  With 20000 columns and 20000 rows the index array has 2400000000 elements, more than
  \<open>INT_MAX\<close>: the count stored by \<^verbatim>\<open>st.indexCount = (int)idx.size()\<close> is negative.
\<close>

lemma generateGrid_indexCount_wraps:
  "\<exists>st' g'. generateGrid st 20000 20000 winW winH g = Some (st', g')
      \<and> indexCount st' = - 1894967296"
proof -
  have h: "(1::int) \<le> 20000" "(1::int) \<le> 20000" "((20000::int) + 1) * (20000 + 1) \<le> 2147483648"
    by simp_all
  from grid_lengths [OF h, of winW winH]
  obtain verts idx where v: "gridVerts 20000 20000 winW winH = Some verts"
    and i: "gridIdx 20000 20000 = Some idx"
    and n: "int (length idx) = 20000 * 20000 * 6"
    by blast
  from generateGrid_upload [OF v i, of st g]
  obtain st' g' where res: "generateGrid st 20000 20000 winW winH g = Some (st', g')"
    and ic: "indexCount st' = size_to_int (length idx)"
    by blast
  from ic n have "indexCount st' = - 1894967296"
    by (simp add: size_to_int_def)
  with res show ?thesis by blast
qed

section \<open>Claims about the velocity estimate and the callbacks\<close>

lemma updateVelocity_fields:
  "lastX (updateVelocity newX newY now st) = newX"
  "lastY (updateVelocity newX newY now st) = newY"
  "lastTime (updateVelocity newX newY now st) = now"
  "vx (updateVelocity newX newY now st) =
     fdiv (fsub newX (if lastTime st = 0 then newX else lastX st))
          (Fin (max 0.000001 (now - lastTime st)))"
  "vy (updateVelocity newX newY now st) =
     fdiv (fsub newY (if lastTime st = 0 then newY else lastY st))
          (Fin (max 0.000001 (now - lastTime st)))"
  by (simp_all add: updateVelocity_def Let_def)

lemma updateVelocity_other_fields:
  "dragging (updateVelocity newX newY now st) = dragging st"
  "vao (updateVelocity newX newY now st) = vao st"
  "shader (updateVelocity newX newY now st) = shader st"
  "indexCount (updateVelocity newX newY now st) = indexCount st"
  by (simp_all add: updateVelocity_def Let_def)


lemma to_float_zero: "to_float 0 = Fin 0"
  by (simp add: to_float_def)

lemma fsub_same: "fsub (Fin a) (Fin a) = Fin 0"
  by (simp add: fsub_def to_float_def)

lemma fdiv_zero: "d \<noteq> 0 \<Longrightarrow> fdiv (Fin 0) (Fin d) = Fin 0"
  by (simp add: to_float_def)




lemma onMoveBegin_st_fields:
  "lastX (fst (onMoveBegin_st now (st, g))) = lastX st"
  "lastY (fst (onMoveBegin_st now (st, g))) = lastY st"
  "vx (fst (onMoveBegin_st now (st, g))) = vx st"
  "vy (fst (onMoveBegin_st now (st, g))) = vy st"
  "lastTime (fst (onMoveBegin_st now (st, g))) = now"
  "dragging (fst (onMoveBegin_st now (st, g))) = True"
  "vao (fst (onMoveBegin_st now (st, g))) = vao st"
  "gridCols (fst (onMoveBegin_st now (st, g))) = gridCols st"
  "gridRows (fst (onMoveBegin_st now (st, g))) = gridRows st"
  by (simp_all add: onMoveBegin_st_def Let_def split_def)

lemma onMove_st_fields:
  "lastX (fst (onMove_st now (st, g))) = lastX st"
  "lastY (fst (onMove_st now (st, g))) = lastY st"
  "vx (fst (onMove_st now (st, g))) = vx st"
  "vy (fst (onMove_st now (st, g))) = vy st"
  "dragging (fst (onMove_st now (st, g))) = dragging st"
  by (simp_all add: onMove_st_def Let_def)

lemma onMoveEnd_st_fields:
  "lastX (fst (onMoveEnd_st (st, g))) = lastX st"
  "lastY (fst (onMoveEnd_st (st, g))) = lastY st"
  "vx (fst (onMoveEnd_st (st, g))) = vx st"
  "vy (fst (onMoveEnd_st (st, g))) = vy st"
  "lastTime (fst (onMoveEnd_st (st, g))) = lastTime st"
  "dragging (fst (onMoveEnd_st (st, g))) = False"
  by (simp_all add: onMoveEnd_st_def)

lemma generateGrid_temporal:
  assumes "generateGrid st cols rows winW winH g = Some (st', g')"
  shows "lastX st' = lastX st" "lastY st' = lastY st" "vx st' = vx st" "vy st' = vy st"
    "lastTime st' = lastTime st" "shader st' = shader st"
proof -
  from assms obtain verts idx where "(st', g') = uploadGrid st cols rows verts idx g"
    unfolding generateGrid_Some by blast
  then have "st' = fst (uploadGrid st cols rows verts idx g)"
    by (metis fst_conv)
  then show "lastX st' = lastX st" "lastY st' = lastY st" "vx st' = vx st" "vy st' = vy st"
    "lastTime st' = lastTime st" "shader st' = shader st"
    by (simp_all add: uploadGrid_fields)
qed

lemma lazyGrid_temporal:
  assumes "lazyGrid win (st, g) = Some (st1, g1)"
  shows "lastX st1 = lastX st" "lastY st1 = lastY st" "vx st1 = vx st" "vy st1 = vy st"
    "lastTime st1 = lastTime st" "shader st1 = shader st"
  using assms generateGrid_temporal [of st "gridCols st" "gridRows st" "w win" "h win" g st1 g1]
  by (auto simp: lazyGrid_def split: if_splits)

lemma onPreRenderWindow_st_Some:
  "onPreRenderWindow_st win now sg = Some res \<longleftrightarrow>
     (\<exists>st1 g1. lazyGrid win sg = Some (st1, g1)
        \<and> res = (updateVelocity (xpos win) (ypos win) now st1,
                  glCalls (drawCalls win now (updateVelocity (xpos win) (ypos win) now st1)) g1))"
  by (auto simp: onPreRenderWindow_st_def Let_def split: Option.bind_splits)

lemma onPreRenderWindow_st_velocity:
  assumes "onPreRenderWindow_st win now (st, g) = Some (st', g')"
  shows "vx st' = fdiv (fsub (xpos win) (if lastTime st = 0 then xpos win else lastX st))
                       (Fin (max 0.000001 (now - lastTime st)))"
    and "vy st' = fdiv (fsub (ypos win) (if lastTime st = 0 then ypos win else lastY st))
                       (Fin (max 0.000001 (now - lastTime st)))"
proof -
  from assms obtain st1 g1 where lg: "lazyGrid win (st, g) = Some (st1, g1)"
    and st': "st' = updateVelocity (xpos win) (ypos win) now st1"
    unfolding onPreRenderWindow_st_Some by blast
  note lazyGrid_temporal [OF lg]
  then show "vx st' = fdiv (fsub (xpos win) (if lastTime st = 0 then xpos win else lastX st))
                       (Fin (max 0.000001 (now - lastTime st)))"
    and "vy st' = fdiv (fsub (ypos win) (if lastTime st = 0 then ypos win else lastY st))
                       (Fin (max 0.000001 (now - lastTime st)))"
    unfolding st' by (simp_all add: updateVelocity_fields)
qed

lemma onPreRenderWindow_st_defined:
  assumes "vao st = 0 \<longrightarrow> 1 \<le> gridCols st \<and> 1 \<le> gridRows st
             \<and> (gridCols st + 1) * (gridRows st + 1) \<le> 2147483648"
  shows "\<exists>st' g'. onPreRenderWindow_st win now (st, g) = Some (st', g')"
proof -
  have "\<exists>st1 g1. lazyGrid win (st, g) = Some (st1, g1)"
  proof (cases "vao st = 0")
    case True
    with assms show ?thesis
      using generateGrid_closed [of "gridCols st" "gridRows st" st "w win" "h win" g]
      by (simp add: lazyGrid_def)
  next
    case False
    then show ?thesis by (simp add: lazyGrid_def)
  qed
  then show ?thesis
    unfolding onPreRenderWindow_st_Some by blast
qed

lemma withState_Some:
  "withState pWin f pl = Some pl' \<longleftrightarrow>
     (\<exists>st' g'. f (stateOf pl pWin, gl pl) = Some (st', g')
        \<and> pl' = \<lparr> g_states = (g_states pl)(pWin \<mapsto> st'), gl = g' \<rparr>)"
  by (auto simp: withState_def split: Option.bind_splits)

lemma stateOf_update: "stateOf \<lparr> g_states = m(pWin \<mapsto> st), gl = g \<rparr> pWin = st"
  by (simp add: stateOf_def)

lemma stateOf_plugin_init: "stateOf plugin_init pWin = defaultState"
  by (simp add: stateOf_def plugin_init_def)

text \<open>
  Claim C6 says that on a freshly created state the first velocity sample is \<open>(0, 0)\<close>
  whatever calls the host has made before, in particular after a \<^verbatim>\<open>moveBegin\<close>. The
  render hook recognises the first sample by \<open>lastTime = 0\<close>, and \<^verbatim>\<open>onMoveBegin\<close> has
  already overwritten \<open>lastTime\<close> with the clock. A window at \<open>(50, 30)\<close> whose drag
  begins at time 100 and which is first rendered at time 100.5 gets the velocity
  \<open>(100, 60)\<close>, computed from the default last position \<open>(0, 0)\<close>.
\<close>

theorem first_sample_after_moveBegin:
  "\<exists>pl. host_run [MoveBegin 1 100,
                  PreRenderWindow 1 \<lparr> w = Fin 800, h = Fin 600, xpos = Fin 50, ypos = Fin 30, tex = 7 \<rparr> 100.5]
           plugin_init = Some pl
      \<and> vx (stateOf pl 1) = Fin 100
      \<and> vy (stateOf pl 1) = Fin 60"
proof -
  let ?win = "\<lparr> w = Fin 800, h = Fin 600, xpos = Fin 50, ypos = Fin 30, tex = 7 \<rparr>"
  obtain st1 g1 where mb: "onMoveBegin_st 100 (defaultState, gl plugin_init) = (st1, g1)"
    by (metis surj_pair)
  let ?pl1 = "\<lparr> g_states = (g_states plugin_init)(1 \<mapsto> st1), gl = g1 \<rparr>"
  have step1: "host_step plugin_init (MoveBegin 1 100) = Some ?pl1"
    by (simp add: onMoveBegin_def withState_def stateOf_plugin_init mb)
  have st1: "lastTime st1 = 100" "lastX st1 = Fin 0" "lastY st1 = Fin 0"
    "vao st1 = 0" "gridCols st1 = 20" "gridRows st1 = 12"
    using onMoveBegin_st_fields [of 100 defaultState "gl plugin_init"] mb
    by (simp_all add: defaultState_def)
  from st1 obtain st2 g2 where render: "onPreRenderWindow_st ?win 100.5 (st1, g1) = Some (st2, g2)"
    using onPreRenderWindow_st_defined [of st1 ?win "100.5" g1] by auto
  let ?pl2 = "\<lparr> g_states = (g_states ?pl1)(1 \<mapsto> st2), gl = g2 \<rparr>"
  have step2: "host_step ?pl1 (PreRenderWindow 1 ?win 100.5) = Some ?pl2"
    using render by (simp add: onPreRenderWindow_def withState_def stateOf_def)
  have run: "host_run [MoveBegin 1 100, PreRenderWindow 1 ?win 100.5] plugin_init = Some ?pl2"
    using step1 step2 by (simp del: host_step.simps)
  have "vx st2 = Fin 100" "vy st2 = Fin 60"
    using onPreRenderWindow_st_velocity [OF render] st1
    by (simp_all add: fsub_def to_float_def)
  then have "vx (stateOf ?pl2 1) = Fin 100 \<and> vy (stateOf ?pl2 1) = Fin 60"
    by (simp add: stateOf_def)
  with run show ?thesis by blast
qed

text \<open>The same frame without the preceding \<^verbatim>\<open>moveBegin\<close>: the velocity is \<open>(0, 0)\<close>.\<close>

lemma first_sample_without_moveBegin:
  "\<exists>pl. host_run [PreRenderWindow 1 \<lparr> w = Fin 800, h = Fin 600, xpos = Fin 50, ypos = Fin 30, tex = 7 \<rparr> 100.5]
           plugin_init = Some pl
      \<and> vx (stateOf pl 1) = Fin 0
      \<and> vy (stateOf pl 1) = Fin 0"
proof -
  let ?win = "\<lparr> w = Fin 800, h = Fin 600, xpos = Fin 50, ypos = Fin 30, tex = 7 \<rparr>"
  obtain st2 g2 where render:
    "onPreRenderWindow_st ?win 100.5 (defaultState, gl plugin_init) = Some (st2, g2)"
    using onPreRenderWindow_st_defined [of defaultState ?win "100.5" "gl plugin_init"]
    by (auto simp: defaultState_def)
  let ?pl2 = "\<lparr> g_states = (g_states plugin_init)(1 \<mapsto> st2), gl = g2 \<rparr>"
  have run: "host_run [PreRenderWindow 1 ?win 100.5] plugin_init = Some ?pl2"
    using render by (simp add: onPreRenderWindow_def withState_def stateOf_plugin_init)
  have "vx st2 = Fin 0" "vy st2 = Fin 0"
    using onPreRenderWindow_st_velocity [OF render]
    by (simp_all add: defaultState_def fsub_same fdiv_zero to_float_zero)
  then have "vx (stateOf ?pl2 1) = Fin 0 \<and> vy (stateOf ?pl2 1) = Fin 0"
    by (simp add: stateOf_def)
  with run show ?thesis by blast
qed

text \<open>
  Claim C7 says that no event handler modifies \<open>lastPosition\<close>, \<open>lastTimestamp\<close> or
  \<open>velocity\<close>. \<^verbatim>\<open>onMoveBegin\<close> at time 5 on the default state changes \<open>lastTime\<close>.
\<close>

theorem handler_changes_lastTime_counterexample:
  "lastTime (fst (onMoveBegin_st 5 (defaultState, \<lparr> next_name = 0, calls = [] \<rparr>)))
     \<noteq> lastTime defaultState"
  by (simp add: onMoveBegin_st_fields defaultState_def)

text \<open>
  Claim C7 as amended. No event handler and no other operation than the velocity update
  of the render hook modifies the last position or the velocity: \<^verbatim>\<open>onMoveBegin\<close>,
  \<^verbatim>\<open>onMove\<close>, \<^verbatim>\<open>onMoveEnd\<close> and \<^verbatim>\<open>generateGrid\<close> leave \<open>lastX\<close>, \<open>lastY\<close>, \<open>vx\<close>
  and \<open>vy\<close> as they are. \<^verbatim>\<open>onMoveBegin\<close> resets \<open>lastTime\<close> to the current time;
  \<^verbatim>\<open>onMoveEnd\<close> and \<^verbatim>\<open>generateGrid\<close> leave \<open>lastTime\<close> as it is.
\<close>

theorem handlers_temporal_fields:
  "lastX (fst (onMoveBegin_st now (st, g))) = lastX st
   \<and> lastY (fst (onMoveBegin_st now (st, g))) = lastY st
   \<and> vx (fst (onMoveBegin_st now (st, g))) = vx st
   \<and> vy (fst (onMoveBegin_st now (st, g))) = vy st
   \<and> lastTime (fst (onMoveBegin_st now (st, g))) = now
   \<and> lastX (fst (onMove_st now (st, g))) = lastX st
   \<and> lastY (fst (onMove_st now (st, g))) = lastY st
   \<and> vx (fst (onMove_st now (st, g))) = vx st
   \<and> vy (fst (onMove_st now (st, g))) = vy st
   \<and> lastX (fst (onMoveEnd_st (st, g))) = lastX st
   \<and> lastY (fst (onMoveEnd_st (st, g))) = lastY st
   \<and> vx (fst (onMoveEnd_st (st, g))) = vx st
   \<and> vy (fst (onMoveEnd_st (st, g))) = vy st
   \<and> lastTime (fst (onMoveEnd_st (st, g))) = lastTime st
   \<and> (\<forall>st' g'. generateGrid st cols rows winW winH g = Some (st', g') \<longrightarrow>
          lastX st' = lastX st \<and> lastY st' = lastY st \<and> vx st' = vx st \<and> vy st' = vy st
          \<and> lastTime st' = lastTime st)"
proof -
  note beginDrag = onMoveBegin_st_fields(1-5) [of now st g]
  note updateDrag = onMove_st_fields(1-4) [of now st g]
  note endDrag = onMoveEnd_st_fields(1-5) [of st g]
  have grid: "lastX st' = lastX st \<and> lastY st' = lastY st \<and> vx st' = vx st \<and> vy st' = vy st
          \<and> lastTime st' = lastTime st"
    if "generateGrid st cols rows winW winH g = Some (st', g')" for st' g'
    using generateGrid_temporal [OF that] by simp
  from beginDrag updateDrag endDrag grid show ?thesis by simp
qed

text \<open>
  \<^verbatim>\<open>generateGrid\<close> on a state last sampled at time 100 at \<open>x = 50\<close>: it returns, and the
  five fields are as before.
\<close>

theorem handlers_temporal_fields_witness:
  "\<exists>st' g'. generateGrid (defaultState \<lparr> lastX := Fin 50, lastTime := 100 \<rparr>) 1 1 (Fin 4) (Fin 2)
               \<lparr> next_name = 0, calls = [] \<rparr> = Some (st', g')
      \<and> lastX st' = Fin 50 \<and> lastY st' = Fin 0 \<and> vx st' = Fin 0 \<and> vy st' = Fin 0
      \<and> lastTime st' = 100"
proof -
  let ?st = "defaultState \<lparr> lastX := Fin 50, lastTime := 100 \<rparr>"
  have "\<exists>st' g'. generateGrid ?st 1 1 (Fin 4) (Fin 2) \<lparr> next_name = 0, calls = [] \<rparr> = Some (st', g')"
    using generateGrid_closed [of 1 1 ?st "Fin 4" "Fin 2" "\<lparr> next_name = 0, calls = [] \<rparr>"]
    by simp
  then obtain st' g' where res:
    "generateGrid ?st 1 1 (Fin 4) (Fin 2) \<lparr> next_name = 0, calls = [] \<rparr> = Some (st', g')"
    by blast
  from handlers_temporal_fields [of 0 ?st "\<lparr> next_name = 0, calls = [] \<rparr>" 1 1 "Fin 4" "Fin 2"] res
  have "lastX st' = lastX ?st \<and> lastY st' = lastY ?st \<and> vx st' = vx ?st \<and> vy st' = vy ?st
          \<and> lastTime st' = lastTime ?st"
    by blast
  with res show ?thesis
    by (simp add: defaultState_def)
qed

lemma uploadGrid_dragging:
  "uploadGrid (st \<lparr> dragging := d \<rparr>) cols rows verts idx g =
     (fst (uploadGrid st cols rows verts idx g) \<lparr> dragging := d \<rparr>,
      snd (uploadGrid st cols rows verts idx g))"
  by (simp add: uploadGrid_def Let_def split_def)

lemma generateGrid_dragging:
  "generateGrid (st \<lparr> dragging := d \<rparr>) cols rows winW winH g =
     map_option (\<lambda>(st', g'). (st' \<lparr> dragging := d \<rparr>, g')) (generateGrid st cols rows winW winH g)"
  by (simp add: generateGrid_def uploadGrid_dragging split_def split: Option.bind_split)

lemma lazyGrid_dragging:
  "lazyGrid win (st \<lparr> dragging := d \<rparr>, g) =
     map_option (\<lambda>(st', g'). (st' \<lparr> dragging := d \<rparr>, g')) (lazyGrid win (st, g))"
  by (simp add: lazyGrid_def generateGrid_dragging)

lemma updateVelocity_dragging:
  "updateVelocity newX newY now (st \<lparr> dragging := d \<rparr>) =
     (updateVelocity newX newY now st) \<lparr> dragging := d \<rparr>"
  by (simp add: updateVelocity_def Let_def)

lemma drawCalls_dragging: "drawCalls win now (st \<lparr> dragging := d \<rparr>) = drawCalls win now st"
  by (simp add: drawCalls_def)

text \<open>
  Claim C8. Two states that are equal except for the \<open>dragging\<close> flag are a state \<open>st\<close>
  and \<open>st\<close> with \<open>dragging\<close> set to some \<open>d\<close>. On the same window fields, clock
  reading and GL context, the render hook has a result for both or for neither, issues
  the same GL calls for both (the same mesh upload, uniforms and draw call) and leaves
  the same state, apart from the flag, which it passes through. The calls that follow
  the lazy mesh upload are listed: the uniforms are \<open>uWinSize\<close>, \<open>uCenter = (0, 0)\<close>,
  the new velocity, \<open>uTime = now\<close>, \<open>uAmplitude = 6.0\<close>, \<open>uFrequency = 0.02\<close> and
  \<open>uDamping = 0.02\<close>.
\<close>

theorem onPreRenderWindow_ignores_dragging:
  "onPreRenderWindow_st win now (st \<lparr> dragging := d \<rparr>, g) =
     map_option (\<lambda>(st', g'). (st' \<lparr> dragging := d \<rparr>, g')) (onPreRenderWindow_st win now (st, g))
   \<and> (\<forall>st' g'. onPreRenderWindow_st win now (st, g) = Some (st', g') \<longrightarrow>
        (\<exists>g1. (if vao st = 0
               then map_option snd (generateGrid st (gridCols st) (gridRows st) (w win) (h win) g)
               else Some g) = Some g1
           \<and> calls g' = calls g1
               @ [UseProgram (shader st),
                  Uniform2f ''uWinSize'' (w win) (h win),
                  Uniform2f ''uCenter'' (Fin 0) (Fin 0),
                  Uniform2f ''uVelocity'' (vx st') (vy st'),
                  Uniform1f ''uTime'' (Fin now),
                  Uniform1f ''uAmplitude'' (Fin 6.0),
                  Uniform1f ''uFrequency'' (Fin 0.02),
                  Uniform1f ''uDamping'' (Fin 0.02),
                  ActiveTexture 0,
                  BindTexture (tex win),
                  Uniform1i ''uTex'' 0,
                  EnableBlend,
                  BlendFuncSrcAlphaOneMinusSrcAlpha,
                  BindVertexArray (vao st'),
                  DrawElementsTriangles (indexCount st'),
                  BindVertexArray 0,
                  UseProgram 0]))"
proof -
  have same: "onPreRenderWindow_st win now (st \<lparr> dragging := d \<rparr>, g) =
     map_option (\<lambda>(st', g'). (st' \<lparr> dragging := d \<rparr>, g')) (onPreRenderWindow_st win now (st, g))"
    by (cases "lazyGrid win (st, g)")
       (auto simp: onPreRenderWindow_st_def lazyGrid_dragging updateVelocity_dragging
          drawCalls_dragging Let_def)
  have out: "\<exists>g1. (if vao st = 0
               then map_option snd (generateGrid st (gridCols st) (gridRows st) (w win) (h win) g)
               else Some g) = Some g1
           \<and> calls g' = calls g1 @ drawCalls win now st' \<and> shader st' = shader st"
    if "onPreRenderWindow_st win now (st, g) = Some (st', g')" for st' g'
  proof -
    from that obtain st1 g1 where lg: "lazyGrid win (st, g) = Some (st1, g1)"
      and st': "st' = updateVelocity (xpos win) (ypos win) now st1"
      and g': "g' = glCalls (drawCalls win now st') g1"
      unfolding onPreRenderWindow_st_Some by blast
    from lg have "(if vao st = 0
               then map_option snd (generateGrid st (gridCols st) (gridRows st) (w win) (h win) g)
               else Some g) = Some g1"
      by (auto simp: lazyGrid_def split: if_splits)
    moreover have "calls g' = calls g1 @ drawCalls win now st'"
      by (simp add: g' glCalls_def)
    moreover have "shader st' = shader st"
      using lazyGrid_temporal(6) [OF lg] by (simp add: st' updateVelocity_other_fields)
    ultimately show ?thesis by blast
  qed
  have listed: "\<exists>g1. (if vao st = 0
               then map_option snd (generateGrid st (gridCols st) (gridRows st) (w win) (h win) g)
               else Some g) = Some g1
           \<and> calls g' = calls g1
               @ [UseProgram (shader st),
                  Uniform2f ''uWinSize'' (w win) (h win),
                  Uniform2f ''uCenter'' (Fin 0) (Fin 0),
                  Uniform2f ''uVelocity'' (vx st') (vy st'),
                  Uniform1f ''uTime'' (Fin now),
                  Uniform1f ''uAmplitude'' (Fin 6.0),
                  Uniform1f ''uFrequency'' (Fin 0.02),
                  Uniform1f ''uDamping'' (Fin 0.02),
                  ActiveTexture 0,
                  BindTexture (tex win),
                  Uniform1i ''uTex'' 0,
                  EnableBlend,
                  BlendFuncSrcAlphaOneMinusSrcAlpha,
                  BindVertexArray (vao st'),
                  DrawElementsTriangles (indexCount st'),
                  BindVertexArray 0,
                  UseProgram 0]"
    if "onPreRenderWindow_st win now (st, g) = Some (st', g')" for st' g'
    using out [OF that] by (auto simp: drawCalls_def)
  from same listed show ?thesis by blast
qed

text \<open>
  A state that has its mesh (\<open>vao = 1\<close>, 1440 indices), last sampled at time 100 at
  \<open>x = 40\<close>, rendered at time 100.5 at \<open>x = 50\<close>: the calls that the hook issues.
\<close>

theorem onPreRenderWindow_ignores_dragging_witness:
  "\<exists>st' g'. onPreRenderWindow_st
               \<lparr> w = Fin 800, h = Fin 600, xpos = Fin 50, ypos = Fin 30, tex = 7 \<rparr> 100.5
               (defaultState \<lparr> lastX := Fin 40, lastY := Fin 30, lastTime := 100, vao := 1,
                               vbo := 2, ebo := 3, shader := 6, indexCount := 1440 \<rparr>,
                \<lparr> next_name = 6, calls = [] \<rparr>) = Some (st', g')
      \<and> calls g' =
           [UseProgram 6,
            Uniform2f ''uWinSize'' (Fin 800) (Fin 600),
            Uniform2f ''uCenter'' (Fin 0) (Fin 0),
            Uniform2f ''uVelocity'' (Fin 20) (Fin 0),
            Uniform1f ''uTime'' (Fin 100.5),
            Uniform1f ''uAmplitude'' (Fin 6.0),
            Uniform1f ''uFrequency'' (Fin 0.02),
            Uniform1f ''uDamping'' (Fin 0.02),
            ActiveTexture 0,
            BindTexture 7,
            Uniform1i ''uTex'' 0,
            EnableBlend,
            BlendFuncSrcAlphaOneMinusSrcAlpha,
            BindVertexArray 1,
            DrawElementsTriangles 1440,
            BindVertexArray 0,
            UseProgram 0]"
proof -
  let ?win = "\<lparr> w = Fin 800, h = Fin 600, xpos = Fin 50, ypos = Fin 30, tex = 7 \<rparr>"
  let ?st = "defaultState \<lparr> lastX := Fin 40, lastY := Fin 30, lastTime := 100, vao := 1,
                               vbo := 2, ebo := 3, shader := 6, indexCount := 1440 \<rparr>"
  let ?g = "\<lparr> next_name = 6, calls = [] \<rparr>"
  have "\<exists>st' g'. onPreRenderWindow_st ?win 100.5 (?st, ?g) = Some (st', g')"
    by (rule onPreRenderWindow_st_defined) simp
  then obtain st' g' where res: "onPreRenderWindow_st ?win 100.5 (?st, ?g) = Some (st', g')"
    by blast
  have st': "vx st' = Fin 20" "vy st' = Fin 0" "vao st' = 1" "indexCount st' = 1440"
  proof -
    from res have eq: "st' = updateVelocity (xpos ?win) (ypos ?win) 100.5 ?st"
      unfolding onPreRenderWindow_st_Some by (auto simp: lazyGrid_def)
    show "vx st' = Fin 20" "vy st' = Fin 0"
      using onPreRenderWindow_st_velocity [OF res]
      by (simp_all add: fsub_def to_float_def)
    show "vao st' = 1" "indexCount st' = 1440"
      unfolding eq by (simp_all add: updateVelocity_other_fields)
  qed
  from onPreRenderWindow_ignores_dragging [of ?win "100.5" True ?st ?g, THEN conjunct2, rule_format, OF res]
  obtain g1 where "g1 = ?g" and "calls g' = calls g1
               @ [UseProgram (shader ?st),
                  Uniform2f ''uWinSize'' (w ?win) (h ?win),
                  Uniform2f ''uCenter'' (Fin 0) (Fin 0),
                  Uniform2f ''uVelocity'' (vx st') (vy st'),
                  Uniform1f ''uTime'' (Fin 100.5),
                  Uniform1f ''uAmplitude'' (Fin 6.0),
                  Uniform1f ''uFrequency'' (Fin 0.02),
                  Uniform1f ''uDamping'' (Fin 0.02),
                  ActiveTexture 0,
                  BindTexture (tex ?win),
                  Uniform1i ''uTex'' 0,
                  EnableBlend,
                  BlendFuncSrcAlphaOneMinusSrcAlpha,
                  BindVertexArray (vao st'),
                  DrawElementsTriangles (indexCount st'),
                  BindVertexArray 0,
                  UseProgram 0]"
    by auto
  with st' have "calls g' =
           [UseProgram 6,
            Uniform2f ''uWinSize'' (Fin 800) (Fin 600),
            Uniform2f ''uCenter'' (Fin 0) (Fin 0),
            Uniform2f ''uVelocity'' (Fin 20) (Fin 0),
            Uniform1f ''uTime'' (Fin 100.5),
            Uniform1f ''uAmplitude'' (Fin 6.0),
            Uniform1f ''uFrequency'' (Fin 0.02),
            Uniform1f ''uDamping'' (Fin 0.02),
            ActiveTexture 0,
            BindTexture 7,
            Uniform1i ''uTex'' 0,
            EnableBlend,
            BlendFuncSrcAlphaOneMinusSrcAlpha,
            BindVertexArray 1,
            DrawElementsTriangles 1440,
            BindVertexArray 0,
            UseProgram 0]"
    by simp
  with res show ?thesis by blast
qed

section \<open>Claims about the displacement\<close>

lemma fmul_not_finite: "\<not> is_finite b \<Longrightarrow> \<not> is_finite (fmul a b)"
  by (cases a; cases b) (simp_all add: scale_inf_def)

lemma fadd_not_finite: "\<not> is_finite b \<Longrightarrow> \<not> is_finite (fadd a b)"
  by (cases a; cases b) simp_all

lemma fmul_NaN: "fmul a NaN = NaN"
  by (cases a) simp_all

lemma fadd_NaN: "fadd a NaN = NaN"
  by (cases a) simp_all

lemma vec2_length_zero: "vec2_length (Fin 0, Fin 0) = Fin 0"
  by (simp add: vec2_length_def to_float_zero)

lemma normalize_vec2_zero: "normalize_vec2 (Fin 0, Fin 0) = (NaN, NaN)"
  by (simp add: normalize_vec2_def vec2_length_zero)

text \<open>
  Claim C10. At every vertex whose offset from the centre is \<open>(-0.0001, -0.0001)\<close> the
  biased direction \<open>(dx + 0.0001, dy + 0.0001)\<close> is the zero vector, its normalisation
  is a NaN in both components, and so is the displaced position: the bias moves the
  singular point of the direction, it does not remove it. A NaN times any number is a
  NaN, so this holds whether or not the wave value is zero.
\<close>

theorem displaced_singular_point:
  assumes "fst aPos - fst uCenter = - 0.0001" "snd aPos - snd uCenter = - 0.0001"
  shows "displaced aPos uCenter uVelocity uTime uAmplitude uFrequency uDamping = (NaN, NaN)"
proof -
  have dx: "fsub (Fin (fst aPos)) (Fin (fst uCenter)) = Fin (- 0.0001)"
    using assms(1) by (simp add: fsub_def to_float_def)
  have dy: "fsub (Fin (snd aPos)) (Fin (snd uCenter)) = Fin (- 0.0001)"
    using assms(2) by (simp add: fsub_def to_float_def)
  have bias: "fadd (Fin (- 0.0001)) (Fin 0.0001) = Fin 0"
    by (simp add: to_float_zero)
  show ?thesis
    unfolding displaced_def Let_def dx dy bias normalize_vec2_zero
    by (simp add: fmul_NaN fadd_NaN)
qed

text \<open>
  The vertex \<open>(-0.0001, -0.0001)\<close> with the centre \<open>(0, 0)\<close> that the render hook
  passes, and its amplitude, frequency and damping.
\<close>

theorem displaced_singular_point_witness:
  "fst (- 0.0001 :: real, - 0.0001 :: real) - fst (0 :: real, 0 :: real) = - 0.0001
   \<and> snd (- 0.0001 :: real, - 0.0001 :: real) - snd (0 :: real, 0 :: real) = - 0.0001
   \<and> displaced (- 0.0001, - 0.0001) (0, 0) (3, 4) 0.25 6.0 0.02 0.02 = (NaN, NaN)"
proof -
  have h: "fst (- 0.0001 :: real, - 0.0001 :: real) - fst (0 :: real, 0 :: real) = - 0.0001"
    "snd (- 0.0001 :: real, - 0.0001 :: real) - snd (0 :: real, 0 :: real) = - 0.0001"
    by simp_all
  from h displaced_singular_point [OF h, of "(3, 4)" "0.25" "6.0" "0.02" "0.02"] show ?thesis
    by simp
qed

text \<open>
  Claim C9 says that at a vertex on the centre the result has no NaN and no Inf
  component, for all finite inputs. The float \<open>10^38\<close> is finite. With the velocity
  \<open>(10^38, 0)\<close> the square of the first component exceeds \<open>FLT_MAX\<close>, so the velocity
  magnitude is \<open>+Inf\<close>; a \<^verbatim>\<open>length\<close> that avoids the intermediate overflow returns
  \<open>10^38\<close>, and \<open>10^38 * 5.0\<close> exceeds \<open>FLT_MAX\<close> as well. The displacement is then an
  infinity or a NaN, and so are both components of the result, at the centre \<open>(0, 0)\<close>
  and with the amplitude, frequency and damping that the render hook passes.
\<close>

theorem displaced_at_center_counterexample:
  "\<not> is_finite (fst (displaced (0, 0) (0, 0) (100000000000000000000000000000000000000, 0)
                       100.5 6.0 0.02 0.02))
   \<and> \<not> is_finite (snd (displaced (0, 0) (0, 0) (100000000000000000000000000000000000000, 0)
                       100.5 6.0 0.02 0.02))"
proof -
  have sq: "fmul (Fin 100000000000000000000000000000000000000) (Fin 100000000000000000000000000000000000000) = PInf"
    by (simp add: to_float_def)
  have "vec2_length (Fin 100000000000000000000000000000000000000, Fin 0) = PInf"
    unfolding vec2_length_def fst_conv snd_conv sq by (simp add: to_float_zero)
  then have boost: "fadd (Fin 1.0) (fmul (vec2_length (Fin 100000000000000000000000000000000000000, Fin 0)) (Fin 5.0)) = PInf"
    by (simp add: scale_inf_def)
  show ?thesis
    unfolding displaced_def Let_def fst_conv snd_conv boost
    by (intro conjI fadd_not_finite fmul_not_finite) simp_all
qed

text \<open>Magnitudes that keep every intermediate value of the displacement finite.\<close>

lemma abs_mult_le:
  fixes a b :: real
  assumes "\<bar>a\<bar> \<le> A" "\<bar>b\<bar> \<le> B"
  shows "\<bar>a * b\<bar> \<le> A * B"
proof -
  have "0 \<le> A" using abs_ge_zero [of a] assms(1) by linarith
  then show ?thesis
    unfolding abs_mult using assms by (intro mult_mono) auto
qed

lemma fmul_Fin: "\<bar>a * b\<bar> \<le> FLT_MAX \<Longrightarrow> fmul (Fin a) (Fin b) = Fin (a * b)"
  by (simp add: to_float_Fin)

lemma fadd_Fin: "\<bar>a + b\<bar> \<le> FLT_MAX \<Longrightarrow> fadd (Fin a) (Fin b) = Fin (a + b)"
  by (simp add: to_float_Fin)

lemma vec2_length_bounded:
  assumes "\<bar>a\<bar> \<le> 1000000000000000000" "\<bar>b\<bar> \<le> 1000000000000000000"
  shows "\<exists>m. vec2_length (Fin a, Fin b) = Fin m \<and> 0 \<le> m \<and> m \<le> 2000000000000000000"
proof -
  have a2: "\<bar>a * a\<bar> \<le> 1000000000000000000 * 1000000000000000000"
    using assms(1) by (intro abs_mult_le)
  have b2: "\<bar>b * b\<bar> \<le> 1000000000000000000 * 1000000000000000000"
    using assms(2) by (intro abs_mult_le)
  have pos: "0 \<le> a * a" "0 \<le> b * b" by simp_all
  have fa: "fmul (Fin a) (Fin a) = Fin (a * a)"
    using a2 by (intro fmul_Fin) simp
  have fb: "fmul (Fin b) (Fin b) = Fin (b * b)"
    using b2 by (intro fmul_Fin) simp
  have sum: "fadd (Fin (a * a)) (Fin (b * b)) = Fin (a * a + b * b)"
    using a2 b2 by (intro fadd_Fin) linarith
  have len: "vec2_length (Fin a, Fin b) = Fin (sqrt (a * a + b * b))"
    unfolding vec2_length_def fst_conv snd_conv fa fb sum using pos
    by (simp add: not_less add_nonneg_nonneg)
  have "a * a + b * b \<le> (2000000000000000000 :: real)\<^sup>2"
    using a2 b2 by (simp add: power2_eq_square)
  then have "sqrt (a * a + b * b) \<le> 2000000000000000000"
    by (intro real_le_lsqrt) simp_all
  moreover have "0 \<le> sqrt (a * a + b * b)"
    using pos by simp
  ultimately show ?thesis
    using len by blast
qed

lemma normalize_vec2_bias:
  "\<exists>k. normalize_vec2 (Fin 0.0001, Fin 0.0001) = (Fin k, Fin k) \<and> \<bar>k\<bar> \<le> 1"
proof -
  define l :: real where "l = sqrt (0.0001 * 0.0001 + 0.0001 * 0.0001)"
  have len: "vec2_length (Fin 0.0001, Fin 0.0001) = Fin l"
    unfolding vec2_length_def l_def by (simp add: to_float_def)
  have l: "0.0001 \<le> l"
    unfolding l_def by (rule real_le_rsqrt) (simp add: power2_eq_square)
  then have k: "\<bar>0.0001 / l\<bar> \<le> 1"
    by simp
  have "fdiv (Fin 0.0001) (Fin l) = Fin (0.0001 / l)"
    using l to_float_small [OF k] by simp
  then have "normalize_vec2 (Fin 0.0001, Fin 0.0001) = (Fin (0.0001 / l), Fin (0.0001 / l))"
    unfolding normalize_vec2_def fst_conv snd_conv len by simp
  with k show ?thesis
    by blast
qed

text \<open>
  Claim C9 as amended. When the components of the centre and the time are at most
  \<open>10^37\<close> in magnitude and the amplitude and the components of the velocity at most
  \<open>10^18\<close>, for every finite frequency and damping, the displaced position of a vertex
  that lies on the centre has two finite components: the direction normalised there is
  \<open>(0.0001, 0.0001)\<close>, not the zero vector, and no intermediate value exceeds
  \<open>FLT_MAX\<close>.
\<close>

theorem displaced_at_center_finite:
  assumes "\<bar>fst c\<bar> \<le> 10 ^ 37" "\<bar>snd c\<bar> \<le> 10 ^ 37" "\<bar>uTime\<bar> \<le> 10 ^ 37"
    and "\<bar>uAmplitude\<bar> \<le> 10 ^ 18" "\<bar>fst uVelocity\<bar> \<le> 10 ^ 18" "\<bar>snd uVelocity\<bar> \<le> 10 ^ 18"
  shows "\<exists>a b. displaced c c uVelocity uTime uAmplitude uFrequency uDamping = (Fin a, Fin b)"
proof -
  obtain m where m: "vec2_length (Fin (fst uVelocity), Fin (snd uVelocity)) = Fin m"
    "0 \<le> m" "m \<le> 2000000000000000000"
    using vec2_length_bounded [of "fst uVelocity" "snd uVelocity"] assms(5,6) by auto
  obtain k where k: "normalize_vec2 (Fin 0.0001, Fin 0.0001) = (Fin k, Fin k)" "\<bar>k\<bar> \<le> 1"
    using normalize_vec2_bias by blast
  define s where "s = sin (- (uTime * 6.2831)) * uAmplitude"
  define D where "D = s * (1 + m * 5)"
  have d0: "fsub (Fin (fst c)) (Fin (fst c)) = Fin 0" "fsub (Fin (snd c)) (Fin (snd c)) = Fin 0"
    by (rule fsub_same)+
  have bias: "fadd (Fin 0) (Fin 0.0001) = Fin 0.0001"
    by (simp add: to_float_def)
  have "\<bar>uTime * 6.2831\<bar> \<le> 10 ^ 37 * 6.2831"
    using assms(3) by (intro abs_mult_le) simp_all
  then have t: "\<bar>uTime * 6.2831\<bar> \<le> FLT_MAX"
    by simp
  have arg: "fsub (fmul (Fin uFrequency) (Fin 0)) (fmul (Fin uTime) (Fin 6.2831))
               = Fin (- (uTime * 6.2831))"
    unfolding fmul_Fin [OF t] using t by (simp add: fsub_def to_float_zero to_float_Fin)
  have decay: "fexp (fmul (fneg (Fin 0)) (Fin uDamping)) = Fin 1"
    by (simp add: to_float_def)
  have "\<bar>sin (- (uTime * 6.2831)) * uAmplitude\<bar> \<le> 1 * 10 ^ 18"
    using assms(4) by (intro abs_mult_le) simp_all
  then have s: "\<bar>s\<bar> \<le> 1000000000000000000"
    unfolding s_def by simp
  have wave: "fmul (fmul (fsin (Fin (- (uTime * 6.2831)))) (Fin uAmplitude)) (Fin 1) = Fin s"
    using s unfolding s_def by (simp add: to_float_Fin)
  have boost: "fadd (Fin 1.0) (fmul (Fin m) (Fin 5.0)) = Fin (1 + m * 5)"
    using m(2,3) by (simp add: to_float_Fin)
  have "\<bar>1 + m * 5\<bar> \<le> 10000000000000000001"
    using m(2,3) by simp
  with s have "\<bar>s * (1 + m * 5)\<bar> \<le> 1000000000000000000 * 10000000000000000001"
    by (intro abs_mult_le)
  then have D: "\<bar>D\<bar> \<le> 20000000000000000000000000000000000000"
    unfolding D_def by simp
  have disp: "fmul (Fin s) (Fin (1 + m * 5)) = Fin D"
    unfolding D_def using D [unfolded D_def] by (intro fmul_Fin) simp
  have "\<bar>k * D\<bar> \<le> 1 * 20000000000000000000000000000000000000"
    using k(2) D by (intro abs_mult_le)
  then have kD: "\<bar>k * D\<bar> \<le> 20000000000000000000000000000000000000"
    by simp
  have prod: "fmul (Fin k) (Fin D) = Fin (k * D)"
    using kD by (intro fmul_Fin) simp
  have fx: "fadd (Fin (fst c)) (Fin (k * D)) = Fin (fst c + k * D)"
    using kD assms(1) by (intro fadd_Fin) simp
  have fy: "fadd (Fin (snd c)) (Fin (k * D)) = Fin (snd c + k * D)"
    using kD assms(2) by (intro fadd_Fin) simp
  have "displaced c c uVelocity uTime uAmplitude uFrequency uDamping
          = (Fin (fst c + k * D), Fin (snd c + k * D))"
    unfolding displaced_def Let_def d0 vec2_length_zero arg decay wave m(1) boost disp bias k(1)
      fst_conv snd_conv prod fx fy ..
  then show ?thesis
    by blast
qed

text \<open>
  The centre \<open>(0, 0)\<close>, the velocity \<open>(3, 4)\<close>, the time 100.5 and the amplitude,
  frequency and damping that the render hook passes.
\<close>

theorem displaced_at_center_finite_witness:
  "\<bar>fst (0 :: real, 0 :: real)\<bar> \<le> 10 ^ 37 \<and> \<bar>snd (0 :: real, 0 :: real)\<bar> \<le> 10 ^ 37
   \<and> \<bar>100.5 :: real\<bar> \<le> 10 ^ 37 \<and> \<bar>6.0 :: real\<bar> \<le> 10 ^ 18
   \<and> \<bar>fst (3 :: real, 4 :: real)\<bar> \<le> 10 ^ 18 \<and> \<bar>snd (3 :: real, 4 :: real)\<bar> \<le> 10 ^ 18
   \<and> (\<exists>a b. displaced (0, 0) (0, 0) (3, 4) 100.5 6.0 0.02 0.02 = (Fin a, Fin b))"
proof -
  have h: "\<bar>fst (0 :: real, 0 :: real)\<bar> \<le> 10 ^ 37" "\<bar>snd (0 :: real, 0 :: real)\<bar> \<le> 10 ^ 37"
    "\<bar>100.5 :: real\<bar> \<le> 10 ^ 37" "\<bar>6.0 :: real\<bar> \<le> 10 ^ 18"
    "\<bar>fst (3 :: real, 4 :: real)\<bar> \<le> 10 ^ 18" "\<bar>snd (3 :: real, 4 :: real)\<bar> \<le> 10 ^ 18"
    by simp_all
  from h displaced_at_center_finite [OF h, of "0.02" "0.02"] show ?thesis
    by blast
qed

end
